theory Spec2Isabelle
  imports Complex_Main "HOL-Library.Multiset" "HOL-Library.AList"
begin

section \<open>The port scanner (portscanner.go)\<close>

subsection \<open>Data\<close>

text \<open>
  \<open>prometheus.Labels\<close> is a \<open>map[string]string\<close>; every label set of the source is a
  literal, kept here as the association list of that literal in the order it is written.
  Gauge values are \<open>float64\<close>; the source only stores constants and converted integers
  in them and never computes with them, so they are kept as reals.
\<close>

type_synonym Labels = "(string \<times> string) list"

record PortscannerResult =
  IpAddress :: string
  Labels :: Labels
  Value :: real

text \<open>
  \<open>network.PublicIPAddress\<close>, with the fields the source reads. \<open>IPAddress\<close>, \<open>ID\<close>
  and \<open>Location\<close> are pointers to strings, \<open>None\<close> when nil. \<open>IPAddress\<close> and the two
  fields after \<open>Location\<close> belong to the properties object of the address, which the
  values of this type have; the collector of public addresses, which may be given an
  address without one, has a case of its own for it.
\<close>

record PublicIPAddress =
  IPAddress :: "string option"
  ID :: "string option"
  Location :: "string option"
  PublicIPAllocationMethod :: string
  PublicIPAddressVersion :: string

text \<open>
  The struct \<open>Portscanner\<close>: the scan-result cache \<open>List\<close>, the discovery set
  \<open>PublicIps\<close> and the gate \<open>Enabled\<close>, both maps initialised (non-nil) as \<open>Init\<close>
  leaves them. The mutex and the logger carry no data. The six callbacks are opaque
  functions of the caller: the model records each invocation, with its argument, in a
  trace of events, and takes them not to write to the scanner they are handed.
\<close>

record Portscanner =
  List :: "string \<rightharpoonup> PortscannerResult list"
  PublicIps :: "string \<rightharpoonup> PublicIPAddress"
  Enabled :: bool

datatype event =
    StartupScan
  | FinishScan
  | StartScanIpAdress PublicIPAddress
  | FinishScanIpAdress PublicIPAddress real
  | ResultCleanup
  | ResultPush PortscannerResult
  | LogError string

text \<open>A panic that leaves a function: \<open>logger.Panic(err)\<close>, or a nil dereference.\<close>

datatype panic = Panic string | NilDereference

text \<open>\<open>to.String\<close> of go-autorest: the empty string for a nil pointer.\<close>

definition to_String :: "string option \<Rightarrow> string" where
  "to_String p = (case p of None \<Rightarrow> [] | Some s \<Rightarrow> s)"

subsection \<open>Iteration over a Go map\<close>

text \<open>
  \<open>for k, v := range m\<close> visits every key of \<open>m\<close> once, in an order that the language
  leaves unspecified and that may differ from one loop to the next. Every such loop of
  the model therefore takes the order as an argument: a list \<open>ks\<close> ranking the keys,
  chosen by the runtime; the loop visits the keys of \<open>m\<close> in the order they have in
  \<open>ks\<close>. \<open>range_order ks m\<close> says that \<open>ks\<close> is such a ranking for \<open>m\<close>.
\<close>

definition range_keys :: "string list \<Rightarrow> (string \<rightharpoonup> 'v) \<Rightarrow> string list" where
  "range_keys ks m = filter (\<lambda>k. m k \<noteq> None) ks"

definition range_order :: "string list \<Rightarrow> (string \<rightharpoonup> 'v) \<Rightarrow> bool" where
  "range_order ks m \<longleftrightarrow> distinct ks \<and> dom m \<subseteq> set ks"

subsection \<open>Operations\<close>

definition Init :: "Portscanner" where
  "Init = \<lparr>List = Map.empty, PublicIps = Map.empty, Enabled = False\<rparr>"

definition Enable :: "Portscanner \<Rightarrow> Portscanner" where
  "Enable c = c\<lparr>Enabled := True\<rparr>"

definition SetAzurePublicIpList :: "PublicIPAddress list \<Rightarrow> Portscanner \<Rightarrow> Portscanner" where
  "SetAzurePublicIpList pipList c =
     c\<lparr>PublicIps := fold (\<lambda>pip m. m(to_String (IPAddress pip) \<mapsto> pip)) pipList Map.empty\<rparr>"

text \<open>\<open>pushResults\<close>: for each cache entry, for each of its results, one \<open>ResultPush\<close>.\<close>

definition pushResults :: "string list \<Rightarrow> Portscanner \<Rightarrow> event list" where
  "pushResults ks c =
     concat (map (\<lambda>k. case List c k of None \<Rightarrow> [] | Some results \<Rightarrow> map ResultPush results)
                 (range_keys ks (List c)))"

definition addResults ::
  "string list \<Rightarrow> PublicIPAddress \<Rightarrow> PortscannerResult list \<Rightarrow> Portscanner \<Rightarrow> Portscanner \<times> event list"
where
  "addResults ks pip results c =
     (let ipAddress = to_String (IPAddress pip);
          c' = c\<lparr>List := (List c)(ipAddress \<mapsto> results)\<rparr>
      in (c', pushResults ks c'))"

text \<open>
  \<open>Cleanup\<close>: the first loop collects the cached addresses that the discovery set does
  not hold, the second deletes them.
\<close>

definition orphanedIpList :: "string list \<Rightarrow> Portscanner \<Rightarrow> string list" where
  "orphanedIpList ks c = filter (\<lambda>ipAddress. PublicIps c ipAddress = None) (range_keys ks (List c))"

definition Cleanup :: "string list \<Rightarrow> Portscanner \<Rightarrow> Portscanner" where
  "Cleanup ks c = c\<lparr>List := fold (\<lambda>ipAddress m. m(ipAddress := None)) (orphanedIpList ks c) (List c)\<rparr>"

definition Publish :: "string list \<Rightarrow> Portscanner \<Rightarrow> Portscanner \<times> event list" where
  "Publish ks c = (c, ResultCleanup # pushResults ks c)"

subsection \<open>Scanning\<close>

text \<open>\<open>strconv.Itoa\<close>: the decimal digits of an integer, with a minus sign if negative.\<close>

definition digit :: "nat \<Rightarrow> char" where
  "digit n = ''0123456789'' ! (n mod 10)"

function Itoa_nat :: "nat \<Rightarrow> string" where
  "Itoa_nat n = (if n < 10 then [digit n] else Itoa_nat (n div 10) @ [digit n])"
  by pat_completeness auto
termination
  by (relation "measure (\<lambda>n. n)") auto

definition Itoa :: "int \<Rightarrow> string" where
  "Itoa i = (if i < 0 then CHR ''-'' # Itoa_nat (nat (- i)) else Itoa_nat (nat i))"

text \<open>
  What \<open>scanIp\<close> takes from outside the scanner: the configured port ranges
  (\<open>portscanPortRange\<close>), the probe of the port-scanner library (\<open>GetOpenedPort\<close> of a
  scanner made for the address, with the configured timeout and threads), and the
  seconds the clock advances while the address is scanned.
\<close>

record Portrange =
  FirstPort :: int
  LastPort :: int

record scan_env =
  portscanPortRange :: "Portrange list"
  GetOpenedPort :: "string \<Rightarrow> int \<Rightarrow> int \<Rightarrow> int list"
  elapsed_seconds :: "string \<Rightarrow> int"

definition scanIp ::
  "scan_env \<Rightarrow> PublicIPAddress \<Rightarrow> Portscanner \<Rightarrow> PortscannerResult list \<times> real"
where
  "scanIp env pip c =
     (let ipAddress = to_String (IPAddress pip)
      in if PublicIps c ipAddress = None then ([], 0)
         else (concat (map (\<lambda>portrange.
                   map (\<lambda>port. \<lparr>IpAddress = ipAddress,
                                   Labels = [(''ipAddress'', ipAddress), (''protocol'', ''TCP''),
                                             (''port'', Itoa port), (''description'', [])],
                                   Value = 1\<rparr>)
                       (GetOpenedPort env ipAddress (FirstPort portrange) (LastPort portrange)))
                 (portscanPortRange env)),
               of_int (elapsed_seconds env ipAddress)))"

text \<open>The values a loop over a map visits, in the order \<open>ks\<close>.\<close>

definition range_values :: "string list \<Rightarrow> (string \<rightharpoonup> 'v) \<Rightarrow> 'v list" where
  "range_values ks m = List.map_filter m ks"

text \<open>
  \<open>Start\<close> spawns one goroutine per discovered address, at most
  \<open>opts.Portscan.Parallel\<close> of them at a time, and waits for all of them. The model is
  the pass under the sequential schedule, in which each task runs to its end before the
  next starts, in the order the loop spawns them (the schedule of \<open>Parallel = 1\<close>); how
  tasks interleave otherwise is outside the model. \<open>rng n\<close> is the order the runtime
  uses for the \<open>n\<close>-th loop over the cache in the pass, \<open>ips\<close> the order of the loop over
  the discovery set.
\<close>

fun scan_tasks ::
  "scan_env \<Rightarrow> (nat \<Rightarrow> string list) \<Rightarrow> nat \<Rightarrow> PublicIPAddress list \<Rightarrow> Portscanner
   \<Rightarrow> Portscanner \<times> event list"
where
  "scan_tasks env rng n [] c = (c, [])"
| "scan_tasks env rng n (pip # pips) c =
     (let (results, elapsed) = scanIp env pip c;
          (c', ev) = addResults (rng n) pip results c;
          (c'', evs) = scan_tasks env rng (Suc n) pips c'
      in (c'', StartScanIpAdress pip # FinishScanIpAdress pip elapsed # ev @ evs))"

definition Start ::
  "scan_env \<Rightarrow> (nat \<Rightarrow> string list) \<Rightarrow> string list \<Rightarrow> Portscanner \<Rightarrow> Portscanner \<times> event list"
where
  "Start env rng ips c =
     (let c1 = Cleanup (rng 0) c;
          (c2, ev2) = Publish (rng 1) c1;
          pips = range_values ips (PublicIps c2);
          (c3, ev3) = scan_tasks env rng 2 pips c2;
          c4 = Cleanup (rng (2 + length pips)) c3;
          (c5, ev5) = Publish (rng (3 + length pips)) c4
      in (c5, StartupScan # ev2 @ ev3 @ ev5 @ [FinishScan]))"

subsection \<open>Persistence\<close>

text \<open>
  The cache file as \<open>json.Unmarshal\<close> sees it when decoding into the scanner. A text
  that is not JSON is \<open>Invalid\<close>, with the syntax error; the decoder checks the whole
  text first and then stores nothing. The document \<open>null\<close> is \<open>Null\<close>. Otherwise the
  document is an \<open>Object\<close>, of which the decoder reads what it gives for \<open>List\<close> and
  what it gives for \<open>PublicIps\<close>; \<open>Enabled\<close> and \<open>Callbacks\<close> are tagged \<open>json:"-"\<close>
  and the other fields are unexported. A name may occur several times, or not at all,
  so each of the two is a list, in document order, of values: \<open>null\<close>, or an object
  with its members in document order, each member with the value the decoder stores for
  it. The third component is the error that the decoding returns, if any: the first
  type error, after which the decoder goes on, or the error at which it stopped. A
  document of another kind (a number, a string, an array) and a value of another kind
  for one of the two names store nothing and give a type error.
\<close>

datatype 'v member = IsNull | IsObject "(string \<times> 'v) list"

datatype content =
    Invalid string
  | Null
  | Object "PortscannerResult list member list"
           "PublicIPAddress member list"
           "string option"

text \<open>
  Decoding \<open>null\<close> into a map sets it to nil. Decoding an object into a map that is
  not nil reuses the map and keeps its entries, and into a nil map makes a new one; each
  member is then stored under its key, a later one over an earlier one. A nil map reads
  as the empty map in every lookup and every loop, which is all that \<open>Cleanup\<close> and
  \<open>Publish\<close> do with it, and the model has the empty map in its place.
\<close>

fun store_member :: "'v member \<Rightarrow> (string \<rightharpoonup> 'v) \<Rightarrow> (string \<rightharpoonup> 'v)" where
  "store_member IsNull m = Map.empty"
| "store_member (IsObject kvs) m = fold (\<lambda>(k, v) m'. m'(k \<mapsto> v)) kvs m"

definition store_members :: "'v member list \<Rightarrow> (string \<rightharpoonup> 'v) \<Rightarrow> (string \<rightharpoonup> 'v)" where
  "store_members ms m = fold store_member ms m"

text \<open>
  \<open>json.Unmarshal(jsonContent, &c)\<close>: the target is the address of the receiver
  variable, so the document \<open>null\<close> sets the receiver itself to nil (the first
  component \<open>None\<close>); any other document is decoded into the struct the receiver points
  to. The second component is the error returned.
\<close>

fun json_Unmarshal :: "content \<Rightarrow> Portscanner \<Rightarrow> Portscanner option \<times> string option" where
  "json_Unmarshal (Invalid e) c = (Some c, Some e)"
| "json_Unmarshal Null c = (None, None)"
| "json_Unmarshal (Object l p err) c =
     (Some (c\<lparr>List := store_members l (List c), PublicIps := store_members p (PublicIps c)\<rparr>), err)"

text \<open>
  The file system as the two operations see it: \<open>os.Open\<close> followed by
  \<open>ioutil.ReadAll\<close> gives an error or the content of the file, and writing the
  serialised scanner to a path gives an error or none. An error of \<open>file.Close\<close> is
  only logged and is left out.
\<close>

record world =
  os_Open :: "string \<Rightarrow> string + content"
  ioutil_WriteFile :: "string \<Rightarrow> Portscanner \<Rightarrow> string option"

text \<open>
  \<open>CacheLoad\<close>: a failed open panics. An error of the decoder is logged with
  \<open>Errorf\<close> and the function goes on. \<open>c.mux.Unlock()\<close> then dereferences the receiver,
  which panics if the decoder set it to nil. \<open>Cleanup\<close> and \<open>Publish\<close> follow.
\<close>

definition CacheLoad ::
  "world \<Rightarrow> string list \<Rightarrow> string list \<Rightarrow> string \<Rightarrow> Portscanner \<Rightarrow> panic + Portscanner \<times> event list"
where
  "CacheLoad w ks1 ks2 path c =
     (case os_Open w path of
        Inl err \<Rightarrow> Inl (Panic err)
      | Inr jsonContent \<Rightarrow>
          (let (cp, err) = json_Unmarshal jsonContent c;
               logged = (case err of None \<Rightarrow> []
                         | Some e \<Rightarrow> [LogError (''failed to load portscanner cache: '' @ e)])
           in case cp of
                None \<Rightarrow> Inl NilDereference
              | Some c1 \<Rightarrow>
                  (let c2 = Cleanup ks1 c1;
                       (c3, ev) = Publish ks2 c2
                   in Inr (c3, logged @ ev))))"

definition CacheSave :: "world \<Rightarrow> string \<Rightarrow> Portscanner \<Rightarrow> panic + unit" where
  "CacheSave w path c =
     (case ioutil_WriteFile w path c of
        Some err \<Rightarrow> Inl (Panic err)
      | None \<Rightarrow> Inr ())"

subsection \<open>Notions used in the statements\<close>

text \<open>The results cached for an address; none when the address has no entry.\<close>

definition cached :: "Portscanner \<Rightarrow> string \<Rightarrow> PortscannerResult list" where
  "cached c k = (case List c k of None \<Rightarrow> [] | Some results \<Rightarrow> results)"

text \<open>The results a trace hands to \<open>ResultPush\<close>, in order.\<close>

definition pushed :: "event list \<Rightarrow> PortscannerResult list" where
  "pushed tr = concat (map (\<lambda>e. case e of ResultPush r \<Rightarrow> [r] | _ \<Rightarrow> []) tr)"



subsection \<open>Example states\<close>

definition res22 :: PortscannerResult where
  "res22 = \<lparr>IpAddress = ''10.0.0.1'',
            Labels = [(''ipAddress'', ''10.0.0.1''), (''protocol'', ''TCP''),
                      (''port'', ''22''), (''description'', '''')],
            Value = 1\<rparr>"

definition res80 :: PortscannerResult where
  "res80 = \<lparr>IpAddress = ''10.0.0.2'',
            Labels = [(''ipAddress'', ''10.0.0.2''), (''protocol'', ''TCP''),
                      (''port'', ''80''), (''description'', '''')],
            Value = 1\<rparr>"

definition pip1 :: PublicIPAddress where
  "pip1 = \<lparr>IPAddress = Some ''10.0.0.1'', ID = Some ''/subscriptions/s/resourceGroups/rg/pip1'',
           Location = Some ''westeurope'', PublicIPAllocationMethod = ''Static'',
           PublicIPAddressVersion = ''IPv4''\<rparr>"

definition pip2 :: PublicIPAddress where
  "pip2 = \<lparr>IPAddress = Some ''10.0.0.2'', ID = Some ''/subscriptions/s/resourceGroups/rg/pip2'',
           Location = Some ''westeurope'', PublicIPAllocationMethod = ''Static'',
           PublicIPAddressVersion = ''IPv4''\<rparr>"



text \<open>Two cached addresses, of which the discovery set holds only the second.\<close>

definition cache_two :: Portscanner where
  "cache_two = \<lparr>List = [''10.0.0.1'' \<mapsto> [res22], ''10.0.0.2'' \<mapsto> [res80]],
                PublicIps = [''10.0.0.2'' \<mapsto> pip2], Enabled = False\<rparr>"

text \<open>One port range; the probe finds port 22 open on the first address only.\<close>

definition env1 :: scan_env where
  "env1 = \<lparr>portscanPortRange = [\<lparr>FirstPort = 1, LastPort = 1024\<rparr>],
           GetOpenedPort = (\<lambda>ip first last. if ip = ''10.0.0.1'' then [22] else []),
           elapsed_seconds = (\<lambda>ip. 0)\<rparr>"

definition rng1 :: "nat \<Rightarrow> string list" where
  "rng1 n = [''10.0.0.1'', ''10.0.0.2'']"

text \<open>The gate closed, one address discovered, nothing cached.\<close>

definition cache_gate :: Portscanner where
  "cache_gate = \<lparr>List = Map.empty, PublicIps = [''10.0.0.1'' \<mapsto> pip1], Enabled = False\<rparr>"





text \<open>The first address cached and discovered.\<close>

definition cache_prior :: Portscanner where
  "cache_prior = \<lparr>List = [''10.0.0.1'' \<mapsto> [res22]], PublicIps = [''10.0.0.1'' \<mapsto> pip1],
                  Enabled = False\<rparr>"

text \<open>
  A file system with a snapshot that holds only the second address, a snapshot that
  gives \<open>null\<close> for \<open>List\<close>, a file that is not JSON, a file whose \<open>PublicIps\<close> is not
  an object, no other file, and one path that cannot be written.
\<close>

definition world1 :: world where
  "world1 = \<lparr>os_Open = (\<lambda>path.
                 if path = ''cache.json''
                 then Inr (Object [IsObject [(''10.0.0.2'', [res80])]] [IsObject [(''10.0.0.2'', pip2)]] None)
                 else if path = ''reset.json''
                 then Inr (Object [IsNull] [] None)
                 else if path = ''corrupt.json''
                 then Inr (Invalid ''unexpected end of JSON input'')
                 else if path = ''mistyped.json''
                 then Inr (Object [IsObject [(''10.0.0.1'', [res22])]] []
                             (Some ''cannot unmarshal number into Go struct field''))
                 else Inl ''no such file or directory''),
             ioutil_WriteFile = (\<lambda>path c.
                 if path = ''/proc/cache.json'' then Some ''permission denied'' else None)\<rparr>"

section \<open>The metrics collection (metrics run of the exporter)\<close>

subsection \<open>Gauges\<close>

text \<open>
  A \<open>prometheus.GaugeVec\<close> holds one value for each label set it has been given;
  \<open>With(labels).Set(v)\<close> adds or overwrites the value for \<open>labels\<close>, \<open>Reset()\<close> removes
  every value. The seven vectors are global variables of the source. The label sets the
  collectors build have the label names the vectors were registered with.
\<close>

type_synonym GaugeVec = "Labels \<rightharpoonup> real"

record Metrics =
  prometheusSubscription :: GaugeVec
  prometheusResourceGroup :: GaugeVec
  prometheusPublicIp :: GaugeVec
  prometheusApiQuota :: GaugeVec
  prometheusQuota :: GaugeVec
  prometheusQuotaCurrent :: GaugeVec
  prometheusQuotaLimit :: GaugeVec

subsection \<open>What the collectors take from outside\<close>

text \<open>
  The answers of the Azure API, with the fields the collectors read. A field that is a
  pointer in the SDK is an option, \<open>None\<close> for nil: the collectors dereference these
  without a test, which panics on nil. The response of a subscription is the embedded
  \<open>*http.Response\<close>, as \<open>Header.Get\<close> reads it: the empty string for a header that is
  absent. The tags of a resource group are a map to pointers.
\<close>

record SubscriptionPolicies =
  LocationPlacementID :: "string option"
  QuotaID :: "string option"
  SpendingLimit :: string

record Subscription =
  SubscriptionID :: "string option"
  DisplayName :: "string option"
  SubscriptionPolicies :: "SubscriptionPolicies option"
  Response :: "(string \<Rightarrow> string) option"

record ResourceGroup =
  rg_Name :: "string option"
  rg_Location :: "string option"
  rg_Tags :: "string \<rightharpoonup> string option"

record UsageName =
  name_Value :: "string option"
  name_LocalizedValue :: "string option"

record Usage =
  Name :: "UsageName option"
  CurrentValue :: "int option"
  Limit :: "int option"

text \<open>
  Each call of the API client gives an error or an answer: the subscription; the
  \<open>Value\<close> of the first page of resource groups, a pointer to a list; the public
  addresses, \<open>None\<close> for one without a properties object; the compute usages; the
  \<open>Value\<close> of the storage usages, a pointer to a list. \<open>strconv.ParseFloat\<close> gives an
  error or a number. \<open>float64\<close> is the conversion of an integer to \<open>float64\<close>, which is
  the integer itself below \<open>2^53\<close> and rounds beyond. \<open>AzureLocation\<close> and
  \<open>AzureResourceGroupTags\<close> are the two options the collectors read,
  \<open>AZURE_RESOURCEGROUP_TAG_PREFIX\<close> a constant of the repository.
\<close>

record collector_env =
  subscriptions_Get :: "string \<Rightarrow> string + Subscription"
  groups_ListComplete :: "string \<Rightarrow> string + ResourceGroup list option"
  publicIPAddresses_ListAll :: "string \<Rightarrow> string + PublicIPAddress option list"
  compute_usage_List :: "string \<Rightarrow> string \<Rightarrow> string + Usage list"
  storage_usage_List :: "string \<Rightarrow> string + Usage list option"
  strconv_ParseFloat :: "string \<Rightarrow> string + real"
  float64 :: "int \<Rightarrow> real"
  AzureLocation :: "string list"
  AzureResourceGroupTags :: "string list"
  AZURE_RESOURCEGROUP_TAG_PREFIX :: string

subsection \<open>The collectors\<close>

text \<open>
  A collector panics with \<open>panic(err)\<close> when its call of the API fails, and with a nil
  dereference when it reads through a nil pointer. Its result is then \<open>Inl\<close> of the
  panic and of the gauges as they are at that point; otherwise \<open>Inr\<close> of the gauges it
  leaves. Log lines are left out.
\<close>

definition probeProcessHeader ::
  "collector_env \<Rightarrow> (string \<Rightarrow> string) option \<Rightarrow> string \<Rightarrow> Labels \<Rightarrow> Metrics
   \<Rightarrow> panic \<times> Metrics + Metrics"
where
  "probeProcessHeader env response header labels m =
     (case response of
        None \<Rightarrow> Inl (NilDereference, m)
      | Some Header_Get \<Rightarrow>
          (let val = Header_Get header
           in if val \<noteq> []
              then (case strconv_ParseFloat env val of
                      Inr valFloat \<Rightarrow>
                        Inr (m\<lparr>prometheusApiQuota := (prometheusApiQuota m)(labels \<mapsto> valFloat)\<rparr>)
                    | Inl err \<Rightarrow> Inr m)
              else Inr m))"

text \<open>The calls of \<open>probeProcessHeader\<close> that a collector makes one after the other.\<close>

fun probeProcessHeaders ::
  "collector_env \<Rightarrow> (string \<Rightarrow> string) option \<Rightarrow> (string \<times> Labels) list \<Rightarrow> Metrics
   \<Rightarrow> panic \<times> Metrics + Metrics"
where
  "probeProcessHeaders env response [] m = Inr m"
| "probeProcessHeaders env response ((header, labels) # calls) m =
     (case probeProcessHeader env response header labels m of
        Inl p \<Rightarrow> Inl p
      | Inr m' \<Rightarrow> probeProcessHeaders env response calls m')"

text \<open>
  The label set of a subscription; \<open>None\<close> when one of the pointers it reads through
  is nil.
\<close>

definition subscriptionLabels :: "Subscription \<Rightarrow> Labels option" where
  "subscriptionLabels sub =
     (case SubscriptionID sub of None \<Rightarrow> None | Some subscriptionID \<Rightarrow>
      case DisplayName sub of None \<Rightarrow> None | Some displayName \<Rightarrow>
      case SubscriptionPolicies sub of None \<Rightarrow> None | Some policies \<Rightarrow>
      case QuotaID policies of None \<Rightarrow> None | Some quotaID \<Rightarrow>
      case LocationPlacementID policies of None \<Rightarrow> None | Some locationPlacementID \<Rightarrow>
        Some [(''subscriptionID'', subscriptionID),
              (''subscriptionName'', displayName),
              (''spendingLimit'', SpendingLimit policies),
              (''quotaID'', quotaID),
              (''locationPlacementID'', locationPlacementID)])"

definition collectAzureSubscription ::
  "collector_env \<Rightarrow> string \<Rightarrow> Metrics \<Rightarrow> panic \<times> Metrics + Metrics"
where
  "collectAzureSubscription env subscriptionId m =
     (case subscriptions_Get env subscriptionId of
        Inl err \<Rightarrow> Inl (Panic err, m)
      | Inr sub \<Rightarrow>
          (case subscriptionLabels sub of
             None \<Rightarrow> Inl (NilDereference, m)
           | Some labels \<Rightarrow>
               probeProcessHeaders env (Response sub)
                 [(''x-ms-ratelimit-remaining-subscription-reads'',
                   [(''subscriptionID'', subscriptionId), (''scope'', ''subscription''), (''type'', ''read'')]),
                  (''x-ms-ratelimit-remaining-subscription-resource-requests'',
                   [(''subscriptionID'', subscriptionId), (''scope'', ''subscription''), (''type'', ''resource-requests'')]),
                  (''x-ms-ratelimit-remaining-subscription-resource-entities-read'',
                   [(''subscriptionID'', subscriptionId), (''scope'', ''subscription''), (''type'', ''resource-entities-read'')]),
                  (''x-ms-ratelimit-remaining-tenant-reads'',
                   [(''subscriptionID'', subscriptionId), (''scope'', ''tenant''), (''type'', ''read'')]),
                  (''x-ms-ratelimit-remaining-tenant-resource-requests'',
                   [(''subscriptionID'', subscriptionId), (''scope'', ''tenant''), (''type'', ''resource-requests'')]),
                  (''x-ms-ratelimit-remaining-tenant-resource-entities-read'',
                   [(''subscriptionID'', subscriptionId), (''scope'', ''tenant''), (''type'', ''resource-entities-read'')])]
                 (m\<lparr>prometheusSubscription := (prometheusSubscription m)(labels \<mapsto> 1)\<rparr>)))"

text \<open>
  The labels of the configured tags, assigned one after the other as in a Go map (an
  assignment to a key the set already has overwrites it): the value of the tag, or the
  empty string when the group has no such tag; \<open>None\<close> when the tag is there with a nil
  pointer.
\<close>

fun rgTagLabels :: "string \<Rightarrow> (string \<rightharpoonup> string option) \<Rightarrow> string list \<Rightarrow> Labels \<Rightarrow> Labels option" where
  "rgTagLabels prefix tags [] rgLabels = Some rgLabels"
| "rgTagLabels prefix tags (rgTag # rgTags) rgLabels =
     (case tags rgTag of
        Some (Some v) \<Rightarrow> rgTagLabels prefix tags rgTags (AList.update (prefix @ rgTag) v rgLabels)
      | Some None \<Rightarrow> None
      | None \<Rightarrow> rgTagLabels prefix tags rgTags (AList.update (prefix @ rgTag) [] rgLabels))"

text \<open>
  The label set of one resource group: the three fixed labels, then the labels of the
  tags; \<open>None\<close> when a pointer it reads through is nil.
\<close>

definition rgLabels :: "collector_env \<Rightarrow> string \<Rightarrow> ResourceGroup \<Rightarrow> Labels option" where
  "rgLabels env subscriptionId item =
     (case rg_Name item of None \<Rightarrow> None | Some name \<Rightarrow>
      case rg_Location item of None \<Rightarrow> None | Some location \<Rightarrow>
        rgTagLabels (AZURE_RESOURCEGROUP_TAG_PREFIX env) (rg_Tags item) (AzureResourceGroupTags env)
          [(''subscriptionID'', subscriptionId), (''resourceGroup'', name), (''location'', location)])"

fun resourceGroup_items ::
  "collector_env \<Rightarrow> string \<Rightarrow> ResourceGroup list \<Rightarrow> Metrics \<Rightarrow> panic \<times> Metrics + Metrics"
where
  "resourceGroup_items env subscriptionId [] m = Inr m"
| "resourceGroup_items env subscriptionId (item # items) m =
     (case rgLabels env subscriptionId item of
        None \<Rightarrow> Inl (NilDereference, m)
      | Some labels \<Rightarrow>
          resourceGroup_items env subscriptionId items
            (m\<lparr>prometheusResourceGroup := (prometheusResourceGroup m)(labels \<mapsto> 1)\<rparr>))"

definition collectAzureResourceGroup ::
  "collector_env \<Rightarrow> string \<Rightarrow> Metrics \<Rightarrow> panic \<times> Metrics + Metrics"
where
  "collectAzureResourceGroup env subscriptionId m =
     (case groups_ListComplete env subscriptionId of
        Inl err \<Rightarrow> Inl (Panic err, m)
      | Inr None \<Rightarrow> Inl (NilDereference, m)
      | Inr (Some items) \<Rightarrow> resourceGroup_items env subscriptionId items m)"

text \<open>
  \<open>resourceGroupFromResourceIdRegExp.FindStringSubmatch\<close> for the expression
  \<open>/resourceGroups/([^/]*)\<close>: at the leftmost occurrence of \<open>/resourceGroups/\<close>, the
  match and its group (the characters up to the next slash); the empty list when there
  is no occurrence.
\<close>

fun find_after :: "string \<Rightarrow> string \<Rightarrow> string option" where
  "find_after pat [] = (if pat = [] then Some [] else None)"
| "find_after pat (x # xs) =
     (if take (length pat) (x # xs) = pat then Some (drop (length pat) (x # xs))
      else find_after pat xs)"

definition FindStringSubmatch :: "string \<Rightarrow> string list" where
  "FindStringSubmatch s =
     (case find_after ''/resourceGroups/'' s of
        None \<Rightarrow> []
      | Some rest \<Rightarrow> [''/resourceGroups/'' @ takeWhile (\<lambda>ch. ch \<noteq> CHR ''/'') rest,
                      takeWhile (\<lambda>ch. ch \<noteq> CHR ''/'') rest])"

text \<open>
  One public IP address: its gauge, and its address appended to the list when it has one.
  Reading \<open>val.IPAddress\<close> of an address without a properties object panics, and so do
  \<open>*val.ID\<close> and \<open>*val.Location\<close> on nil, all before the gauge is set.
  \<open>rgSubMatch[1]\<close> is read when the match has at least one element; a match has two.
\<close>

definition publicIp_step ::
  "string \<Rightarrow> PublicIPAddress option \<Rightarrow> Metrics \<times> string list
   \<Rightarrow> panic \<times> Metrics + Metrics \<times> string list"
where
  "publicIp_step subscriptionId val st =
     (let (m, ipAddressList) = st
      in case val of
           None \<Rightarrow> Inl (NilDereference, m)
         | Some pip \<Rightarrow>
             (let (ipAddress, gaugeValue, ipAddressList') =
                    (case IPAddress pip of
                       Some a \<Rightarrow> (a, 1, ipAddressList @ [a])
                     | None \<Rightarrow> (''not allocated'', 0, ipAddressList))
              in case ID pip of
                   None \<Rightarrow> Inl (NilDereference, m)
                 | Some resourceId \<Rightarrow>
                     (let rgSubMatch = FindStringSubmatch resourceId;
                          resourceGroup = (if length rgSubMatch \<ge> 1 then rgSubMatch ! 1 else [])
                      in case Location pip of
                           None \<Rightarrow> Inl (NilDereference, m)
                         | Some location \<Rightarrow>
                             Inr (m\<lparr>prometheusPublicIp := (prometheusPublicIp m)(
                                      [(''subscriptionID'', subscriptionId),
                                       (''resourceGroup'', resourceGroup),
                                       (''location'', location),
                                       (''ipAddress'', ipAddress),
                                       (''ipAllocationMethod'', PublicIPAllocationMethod pip),
                                       (''ipAdressVersion'', PublicIPAddressVersion pip)] \<mapsto> gaugeValue)\<rparr>,
                                  ipAddressList'))))"

fun publicIp_values ::
  "string \<Rightarrow> PublicIPAddress option list \<Rightarrow> Metrics \<times> string list
   \<Rightarrow> panic \<times> Metrics + Metrics \<times> string list"
where
  "publicIp_values subscriptionId [] st = Inr st"
| "publicIp_values subscriptionId (val # vals) st =
     (case publicIp_step subscriptionId val st of
        Inl p \<Rightarrow> Inl p
      | Inr st' \<Rightarrow> publicIp_values subscriptionId vals st')"

definition collectAzurePublicIp ::
  "collector_env \<Rightarrow> string \<Rightarrow> Metrics \<Rightarrow> panic \<times> Metrics + Metrics \<times> string list"
where
  "collectAzurePublicIp env subscriptionId m =
     (case publicIPAddresses_ListAll env subscriptionId of
        Inl err \<Rightarrow> Inl (Panic err, m)
      | Inr list \<Rightarrow> publicIp_values subscriptionId list (m, []))"

text \<open>
  \<open>With(labels)\<close> alone: the vector gets the value zero for a label set it has no value
  for.
\<close>

definition With :: "Labels \<Rightarrow> GaugeVec \<Rightarrow> GaugeVec" where
  "With labels g = (case g labels of None \<Rightarrow> g(labels \<mapsto> 0) | Some v \<Rightarrow> g)"

text \<open>
  The three quota gauges of one usage value, for a location and a scope. The two label
  sets are built first, reading through \<open>val.Name\<close> and its two strings; then each gauge
  is set in turn. In \<open>prometheusQuotaCurrent.With(labels).Set(float64(*val.CurrentValue))\<close>
  the call of \<open>With\<close> comes before the dereference, so a nil \<open>CurrentValue\<close> panics
  after \<open>With\<close> has been called; the same holds for \<open>Limit\<close>.
\<close>

definition usage_step ::
  "collector_env \<Rightarrow> string \<Rightarrow> string \<Rightarrow> string \<Rightarrow> Usage \<Rightarrow> Metrics \<Rightarrow> panic \<times> Metrics + Metrics"
where
  "usage_step env subscriptionId location scope val m =
     (case Name val of None \<Rightarrow> Inl (NilDereference, m) | Some name \<Rightarrow>
      case name_Value name of None \<Rightarrow> Inl (NilDereference, m) | Some quota \<Rightarrow>
      case name_LocalizedValue name of None \<Rightarrow> Inl (NilDereference, m) | Some quotaName \<Rightarrow>
        (let labels = [(''subscriptionID'', subscriptionId), (''location'', location),
                       (''scope'', scope), (''quota'', quota)];
             infoLabels = [(''subscriptionID'', subscriptionId), (''location'', location),
                           (''scope'', scope), (''quota'', quota), (''quotaName'', quotaName)];
             m1 = m\<lparr>prometheusQuota := (prometheusQuota m)(infoLabels \<mapsto> 1)\<rparr>
         in case CurrentValue val of
              None \<Rightarrow>
                Inl (NilDereference,
                     m1\<lparr>prometheusQuotaCurrent := With labels (prometheusQuotaCurrent m1)\<rparr>)
            | Some currentValue \<Rightarrow>
                (let m2 = m1\<lparr>prometheusQuotaCurrent :=
                                (prometheusQuotaCurrent m1)(labels \<mapsto> float64 env currentValue)\<rparr>
                 in case Limit val of
                      None \<Rightarrow>
                        Inl (NilDereference,
                             m2\<lparr>prometheusQuotaLimit := With labels (prometheusQuotaLimit m2)\<rparr>)
                    | Some limit \<Rightarrow>
                        Inr (m2\<lparr>prometheusQuotaLimit :=
                                   (prometheusQuotaLimit m2)(labels \<mapsto> float64 env limit)\<rparr>))))"

fun usage_values ::
  "collector_env \<Rightarrow> string \<Rightarrow> string \<Rightarrow> string \<Rightarrow> Usage list \<Rightarrow> Metrics \<Rightarrow> panic \<times> Metrics + Metrics"
where
  "usage_values env subscriptionId location scope [] m = Inr m"
| "usage_values env subscriptionId location scope (val # vals) m =
     (case usage_step env subscriptionId location scope val m of
        Inl p \<Rightarrow> Inl p
      | Inr m' \<Rightarrow> usage_values env subscriptionId location scope vals m')"

text \<open>The loop over the locations stops at the first panic.\<close>

fun computeUsage_locations ::
  "collector_env \<Rightarrow> string \<Rightarrow> string list \<Rightarrow> Metrics \<Rightarrow> panic \<times> Metrics + Metrics"
where
  "computeUsage_locations env subscriptionId [] m = Inr m"
| "computeUsage_locations env subscriptionId (location # locations) m =
     (case compute_usage_List env subscriptionId location of
        Inl err \<Rightarrow> Inl (Panic err, m)
      | Inr list \<Rightarrow>
          (case usage_values env subscriptionId location ''compute'' list m of
             Inl p \<Rightarrow> Inl p
           | Inr m' \<Rightarrow> computeUsage_locations env subscriptionId locations m'))"

definition collectAzureComputeUsage ::
  "collector_env \<Rightarrow> string \<Rightarrow> Metrics \<Rightarrow> panic \<times> Metrics + Metrics"
where
  "collectAzureComputeUsage env subscriptionId m =
     computeUsage_locations env subscriptionId (AzureLocation env) m"

fun storageUsage_locations ::
  "collector_env \<Rightarrow> string \<Rightarrow> string list \<Rightarrow> Metrics \<Rightarrow> panic \<times> Metrics + Metrics"
where
  "storageUsage_locations env subscriptionId [] m = Inr m"
| "storageUsage_locations env subscriptionId (location # locations) m =
     (case storage_usage_List env subscriptionId of
        Inl err \<Rightarrow> Inl (Panic err, m)
      | Inr None \<Rightarrow> Inl (NilDereference, m)
      | Inr (Some list) \<Rightarrow>
          (case usage_values env subscriptionId location ''storage'' list m of
             Inl p \<Rightarrow> Inl p
           | Inr m' \<Rightarrow> storageUsage_locations env subscriptionId locations m'))"

definition collectAzureStorageUsage ::
  "collector_env \<Rightarrow> string \<Rightarrow> Metrics \<Rightarrow> panic \<times> Metrics + Metrics"
where
  "collectAzureStorageUsage env subscriptionId m =
     storageUsage_locations env subscriptionId (AzureLocation env) m"

subsection \<open>One cycle\<close>

text \<open>
  \<open>runMetricsCollectionAzureRm\<close> resets two gauge vectors and then starts, for each
  subscription, six goroutines, one for each kind of task (the network usage task only
  logs: its collector is commented out); a further goroutine gathers the address lists
  that the public IP tasks send. No goroutine recovers from a panic, and in Go a panic
  that leaves a goroutine ends the program. The model runs the tasks one at a time, each
  to its end, in the order \<open>sched\<close> in which the scheduler of the runtime happens to run
  them; at the first task that panics the cycle, and the program, end. The result is
  then \<open>Inl\<close> of the panic and of the gauges at that point, and otherwise \<open>Inr\<close> of the
  gauges and of the gathered addresses. Handing the gathered addresses to the port
  scanner is not part of the model.
\<close>

datatype task =
    SubscriptionTask string
  | ResourceGroupTask string
  | PublicIpTask string
  | ComputeUsageTask string
  | NetworkUsageTask string
  | StorageUsageTask string

definition spawned :: "string list \<Rightarrow> task list" where
  "spawned AzureSubscriptions =
     concat (map (\<lambda>subscriptionId.
                    [SubscriptionTask subscriptionId, ResourceGroupTask subscriptionId,
                     PublicIpTask subscriptionId, ComputeUsageTask subscriptionId,
                     NetworkUsageTask subscriptionId, StorageUsageTask subscriptionId])
                 AzureSubscriptions)"

fun run_task ::
  "collector_env \<Rightarrow> task \<Rightarrow> Metrics \<times> string list \<Rightarrow> panic \<times> Metrics + Metrics \<times> string list"
where
  "run_task env (SubscriptionTask s) (m, publicIpList) =
     (case collectAzureSubscription env s m of Inl p \<Rightarrow> Inl p | Inr m' \<Rightarrow> Inr (m', publicIpList))"
| "run_task env (ResourceGroupTask s) (m, publicIpList) =
     (case collectAzureResourceGroup env s m of Inl p \<Rightarrow> Inl p | Inr m' \<Rightarrow> Inr (m', publicIpList))"
| "run_task env (PublicIpTask s) (m, publicIpList) =
     (case collectAzurePublicIp env s m of
        Inl p \<Rightarrow> Inl p
      | Inr (m', ipAddressList) \<Rightarrow> Inr (m', publicIpList @ ipAddressList))"
| "run_task env (ComputeUsageTask s) (m, publicIpList) =
     (case collectAzureComputeUsage env s m of Inl p \<Rightarrow> Inl p | Inr m' \<Rightarrow> Inr (m', publicIpList))"
| "run_task env (NetworkUsageTask s) (m, publicIpList) = Inr (m, publicIpList)"
| "run_task env (StorageUsageTask s) (m, publicIpList) =
     (case collectAzureStorageUsage env s m of Inl p \<Rightarrow> Inl p | Inr m' \<Rightarrow> Inr (m', publicIpList))"

fun run_tasks ::
  "collector_env \<Rightarrow> task list \<Rightarrow> Metrics \<times> string list \<Rightarrow> panic \<times> Metrics + Metrics \<times> string list"
where
  "run_tasks env [] st = Inr st"
| "run_tasks env (t # ts) st =
     (case run_task env t st of Inl p \<Rightarrow> Inl p | Inr st' \<Rightarrow> run_tasks env ts st')"

definition runMetricsCollectionAzureRm ::
  "collector_env \<Rightarrow> task list \<Rightarrow> Metrics \<Rightarrow> panic \<times> Metrics + Metrics \<times> string list"
where
  "runMetricsCollectionAzureRm env sched m =
     run_tasks env sched (m\<lparr>prometheusResourceGroup := Map.empty, prometheusPublicIp := Map.empty\<rparr>, [])"

subsection \<open>Notions used in the statements\<close>

text \<open>The call of the API that a task makes fails.\<close>

fun fetch_fails :: "collector_env \<Rightarrow> task \<Rightarrow> bool" where
  "fetch_fails env (SubscriptionTask s) = isl (subscriptions_Get env s)"
| "fetch_fails env (ResourceGroupTask s) = isl (groups_ListComplete env s)"
| "fetch_fails env (PublicIpTask s) = isl (publicIPAddresses_ListAll env s)"
| "fetch_fails env (ComputeUsageTask s) = list_ex (\<lambda>location. isl (compute_usage_List env s location)) (AzureLocation env)"
| "fetch_fails env (NetworkUsageTask s) = False"
| "fetch_fails env (StorageUsageTask s) = (AzureLocation env \<noteq> [] \<and> isl (storage_usage_List env s))"

text \<open>The seven gauge vectors, to speak of each of them.\<close>

definition gauge_vectors :: "(Metrics \<Rightarrow> GaugeVec) list" where
  "gauge_vectors = [prometheusSubscription, prometheusResourceGroup, prometheusPublicIp,
                    prometheusApiQuota, prometheusQuota, prometheusQuotaCurrent, prometheusQuotaLimit]"

text \<open>The gauges a collector, and a task, leaves, whether it panicked or not.\<close>

definition metrics_of :: "panic \<times> Metrics + Metrics \<Rightarrow> Metrics" where
  "metrics_of r = (case r of Inl (p, m) \<Rightarrow> m | Inr m \<Rightarrow> m)"

definition metrics_after :: "panic \<times> Metrics + Metrics \<times> string list \<Rightarrow> Metrics" where
  "metrics_after r = (case r of Inl (p, m) \<Rightarrow> m | Inr (m, publicIpList) \<Rightarrow> m)"

text \<open>
  \<open>keeps m m'\<close>: every label set that has a value in a vector of \<open>m\<close> has one in that
  vector of \<open>m'\<close> (nothing was reset). \<open>untouched gs m m'\<close>: the vectors \<open>gs\<close> are in
  \<open>m'\<close> as they are in \<open>m\<close>.
\<close>

definition keeps :: "Metrics \<Rightarrow> Metrics \<Rightarrow> bool" where
  "keeps m m' \<longleftrightarrow> list_all (\<lambda>g. dom (g m) \<subseteq> dom (g m')) gauge_vectors"

definition untouched :: "(Metrics \<Rightarrow> GaugeVec) list \<Rightarrow> Metrics \<Rightarrow> Metrics \<Rightarrow> bool" where
  "untouched gs m m' \<longleftrightarrow> list_all (\<lambda>g. g m' = g m) gs"

text \<open>The resource groups of a list whose label set is built without a panic have their gauge.\<close>

definition groups_set :: "collector_env \<Rightarrow> string \<Rightarrow> ResourceGroup list \<Rightarrow> Metrics \<Rightarrow> bool" where
  "groups_set env subscriptionId items m \<longleftrightarrow>
     list_all (\<lambda>item. case rgLabels env subscriptionId item of
                         None \<Rightarrow> False
                       | Some labels \<Rightarrow> prometheusResourceGroup m labels = Some 1) items"

subsection \<open>Example cycle\<close>

text \<open>One resource group, one storage quota, one compute quota, one subscription.\<close>

definition group_rg :: ResourceGroup where
  "group_rg = \<lparr>rg_Name = Some ''rg'', rg_Location = Some ''westeurope'', rg_Tags = Map.empty\<rparr>"

definition usage_storage :: Usage where
  "usage_storage = \<lparr>Name = Some \<lparr>name_Value = Some ''StorageAccounts'',
                                  name_LocalizedValue = Some ''Storage Accounts''\<rparr>,
                    CurrentValue = Some 3, Limit = Some 250\<rparr>"

definition usage_cores :: Usage where
  "usage_cores = \<lparr>Name = Some \<lparr>name_Value = Some ''cores'',
                                name_LocalizedValue = Some ''Total Regional vCPUs''\<rparr>,
                  CurrentValue = Some 4, Limit = Some 100\<rparr>"

definition subscription_S :: Subscription where
  "subscription_S = \<lparr>SubscriptionID = Some ''S'', DisplayName = Some ''sub'',
                     SubscriptionPolicies = Some \<lparr>LocationPlacementID = Some ''l'', QuotaID = Some ''q'',
                                                  SpendingLimit = ''Off''\<rparr>,
                     Response = Some (\<lambda>header. [])\<rparr>"

text \<open>
  One subscription; the calls for the subscription and for the compute usage fail, the
  others succeed.
\<close>

definition env_fail :: collector_env where
  "env_fail = \<lparr>subscriptions_Get = (\<lambda>s. Inl ''subscription request failed''),
               groups_ListComplete = (\<lambda>s. Inr (Some [group_rg])),
               publicIPAddresses_ListAll = (\<lambda>s. Inr [Some pip1]),
               compute_usage_List = (\<lambda>s location. Inl ''compute usage request failed''),
               storage_usage_List = (\<lambda>s. Inr (Some [usage_storage])),
               strconv_ParseFloat = (\<lambda>s. Inl ''invalid syntax''),
               float64 = of_int,
               AzureLocation = [''westeurope''],
               AzureResourceGroupTags = [],
               AZURE_RESOURCEGROUP_TAG_PREFIX = ''tag_''\<rparr>"

text \<open>The same, with every call succeeding.\<close>

definition env_ok :: collector_env where
  "env_ok = env_fail\<lparr>subscriptions_Get := (\<lambda>s. Inr subscription_S),
                      compute_usage_List := (\<lambda>s location. Inr [usage_cores])\<rparr>"

text \<open>Gauges as an earlier cycle left them: one quota that the API no longer reports.\<close>

definition stale_quota :: Labels where
  "stale_quota = [(''subscriptionID'', ''S''), (''location'', ''westeurope''), (''scope'', ''compute''),
                  (''quota'', ''availabilitySets''), (''quotaName'', ''Availability Sets'')]"

definition metrics_prior :: Metrics where
  "metrics_prior = \<lparr>prometheusSubscription = Map.empty,
                    prometheusResourceGroup = Map.empty,
                    prometheusPublicIp = Map.empty,
                    prometheusApiQuota = Map.empty,
                    prometheusQuota = [stale_quota \<mapsto> 1],
                    prometheusQuotaCurrent = Map.empty,
                    prometheusQuotaLimit = Map.empty\<rparr>"

text \<open>Every call succeeding but that for the compute usage.\<close>

definition env_quota_fail :: collector_env where
  "env_quota_fail = env_ok\<lparr>compute_usage_List := (\<lambda>s location. Inl ''compute usage request failed'')\<rparr>"

text \<open>The label sets that the example cycle writes.\<close>

definition rg_labels :: Labels where
  "rg_labels = [(''subscriptionID'', ''S''), (''resourceGroup'', ''rg''), (''location'', ''westeurope'')]"

definition cores_quota :: Labels where
  "cores_quota = [(''subscriptionID'', ''S''), (''location'', ''westeurope''), (''scope'', ''compute''),
                  (''quota'', ''cores''), (''quotaName'', ''Total Regional vCPUs'')]"

section \<open>Properties\<close>

subsection \<open>Cleanup and addResults\<close>

lemma fold_delete_restrict:
  "fold (\<lambda>k m. m(k := None)) xs m = m |` (- set xs)"
proof (induction xs arbitrary: m)
  case Nil
  show ?case by simp
next
  case (Cons x xs)
  have "fold (\<lambda>k m. m(k := None)) (x # xs) m = fold (\<lambda>k m. m(k := None)) xs (m(x := None))"
    by simp
  also have "\<dots> = (m(x := None)) |` (- set xs)"
    by (rule Cons.IH)
  also have "\<dots> = m |` (- set (x # xs))"
    by (rule ext) (simp add: restrict_map_def)
  finally show ?case .
qed

lemma set_range_keys:
  "range_order ks m \<Longrightarrow> set (range_keys ks m) = dom m"
  by (auto simp: range_order_def range_keys_def)

lemma List_Cleanup:
  assumes "range_order ks (List c)"
  shows "List (Cleanup ks c) = List c |` dom (PublicIps c)"
proof (rule ext)
  fix k
  have s: "set (orphanedIpList ks c) = dom (List c) - dom (PublicIps c)"
    using set_range_keys [OF assms] by (auto simp: orphanedIpList_def)
  show "List (Cleanup ks c) k = (List c |` dom (PublicIps c)) k"
    by (auto simp: Cleanup_def fold_delete_restrict s restrict_map_def)
qed

text \<open>
  C1. After \<open>Cleanup\<close>, every key of the cache is a key of the discovery set: the cache
  is the old cache restricted to the discovered addresses, so the entries removed are
  exactly those whose address the discovery set lacks and every other entry is as it
  was; the discovery set and the gate are not touched.
\<close>

theorem Cleanup_orphans:
  assumes "range_order ks (List c)"
  shows "dom (List (Cleanup ks c)) \<subseteq> dom (PublicIps c)
       \<and> List (Cleanup ks c) = List c |` dom (PublicIps c)
       \<and> PublicIps (Cleanup ks c) = PublicIps c
       \<and> Enabled (Cleanup ks c) = Enabled c"
proof -
  have "List (Cleanup ks c) = List c |` dom (PublicIps c)"
    by (rule List_Cleanup [OF assms])
  moreover have "dom (List c |` dom (PublicIps c)) \<subseteq> dom (PublicIps c)"
    by simp
  moreover have "PublicIps (Cleanup ks c) = PublicIps c" "Enabled (Cleanup ks c) = Enabled c"
    by (simp_all add: Cleanup_def)
  ultimately show ?thesis by simp
qed

theorem Cleanup_orphans_witness:
  "range_order [''10.0.0.2'', ''10.0.0.1''] (List cache_two)
 \<and> dom (List (Cleanup [''10.0.0.2'', ''10.0.0.1''] cache_two)) \<subseteq> dom (PublicIps cache_two)
 \<and> List (Cleanup [''10.0.0.2'', ''10.0.0.1''] cache_two) ''10.0.0.1'' = None
 \<and> List (Cleanup [''10.0.0.2'', ''10.0.0.1''] cache_two) ''10.0.0.2'' = Some [res80]"
proof -
  have h: "range_order [''10.0.0.2'', ''10.0.0.1''] (List cache_two)"
    by (simp add: range_order_def cache_two_def)
  have e: "List (Cleanup [''10.0.0.2'', ''10.0.0.1''] cache_two) = List cache_two |` dom (PublicIps cache_two)"
    using Cleanup_orphans [OF h] by simp
  show ?thesis
    using h Cleanup_orphans [OF h] by (simp add: e) (simp add: cache_two_def restrict_map_def)
qed


subsection \<open>Publish\<close>

lemma distinct_range_keys:
  "range_order ks m \<Longrightarrow> distinct (range_keys ks m)"
  by (simp add: range_order_def range_keys_def)

lemma mset_range_keys:
  assumes "range_order ks1 m" "range_order ks2 m"
  shows "mset (range_keys ks1 m) = mset (range_keys ks2 m)"
proof -
  have "set (range_keys ks1 m) = set (range_keys ks2 m)"
    using assms by (simp add: set_range_keys)
  then show ?thesis
    using assms set_eq_iff_mset_eq_distinct [of "range_keys ks1 m" "range_keys ks2 m"]
    by (simp add: distinct_range_keys)
qed

lemma pushResults_cached:
  "pushResults ks c = concat (map (\<lambda>k. map ResultPush (cached c k)) (range_keys ks (List c)))"
proof -
  have "(\<lambda>k. case List c k of None \<Rightarrow> [] | Some results \<Rightarrow> map ResultPush results)
      = (\<lambda>k. map ResultPush (cached c k))"
    by (rule ext) (simp add: cached_def split: option.splits)
  then show ?thesis by (simp add: pushResults_def)
qed

lemma pushed_map_ResultPush: "pushed (map ResultPush rs) = rs"
  by (induction rs) (simp_all add: pushed_def)

lemma pushed_append: "pushed (xs @ ys) = pushed xs @ pushed ys"
  by (simp add: pushed_def)

lemma pushed_concat: "pushed (concat xss) = concat (map pushed xss)"
  by (induction xss) (simp_all add: pushed_append, simp add: pushed_def)

lemma pushed_pushResults:
  "pushed (pushResults ks c) = concat (map (cached c) (range_keys ks (List c)))"
  by (simp add: pushResults_cached pushed_concat comp_def pushed_map_ResultPush)

lemma mset_pushResults:
  "mset (pushResults ks c) = (\<Sum>k\<in>#mset (range_keys ks (List c)). mset (map ResultPush (cached c k)))"
  by (simp add: pushResults_cached mset_concat comp_def sum_mset_sum_list [symmetric])

lemma mset_pushResults_order:
  assumes "range_order ks1 (List c)" "range_order ks2 (List c)"
  shows "mset (pushResults ks1 c) = mset (pushResults ks2 c)"
  by (simp only: mset_pushResults mset_range_keys [OF assms])

lemma length_pushed_pushResults:
  assumes "range_order ks (List c)"
  shows "length (pushed (pushResults ks c)) = (\<Sum>k\<in>dom (List c). length (cached c k))"
proof -
  have "length (pushed (pushResults ks c)) = sum_list (map (\<lambda>k. length (cached c k)) (range_keys ks (List c)))"
    by (simp add: pushed_pushResults length_concat comp_def)
  also have "\<dots> = (\<Sum>k\<in>set (range_keys ks (List c)). length (cached c k))"
    by (rule sum_list_distinct_conv_sum_set [OF distinct_range_keys [OF assms]])
  finally show ?thesis by (simp add: set_range_keys [OF assms])
qed

text \<open>
  C7. Two calls of \<open>Publish\<close> in a row, with nothing in between. The first leaves the
  scanner as it was, and the second emits the same events as the first up to their order
  (the traces are equal as multisets); when both loops over the cache run in the same
  order the traces are equal. Each call hands to \<open>ResultPush\<close> the cached results address
  by address, those of one address in the order they are cached, so one invocation for
  each cached result. The order of the addresses is that of the loop over the Go map,
  which the second call need not repeat.
\<close>

theorem Publish_twice:
  assumes "range_order ks1 (List c)" and "range_order ks2 (List c)"
  shows "fst (Publish ks1 c) = c
       \<and> mset (snd (Publish ks2 (fst (Publish ks1 c)))) = mset (snd (Publish ks1 c))
       \<and> snd (Publish ks1 (fst (Publish ks1 c))) = snd (Publish ks1 c)
       \<and> pushed (snd (Publish ks1 c)) = concat (map (cached c) (range_keys ks1 (List c)))
       \<and> length (pushed (snd (Publish ks1 c))) = (\<Sum>k\<in>dom (List c). length (cached c k))"
proof -
  have p: "pushed (snd (Publish ks1 c)) = pushed (pushResults ks1 c)"
    by (simp add: Publish_def pushed_def)
  have "mset (snd (Publish ks2 (fst (Publish ks1 c)))) = mset (snd (Publish ks1 c))"
    using mset_pushResults_order [OF assms] by (simp add: Publish_def)
  moreover have "length (pushed (snd (Publish ks1 c))) = (\<Sum>k\<in>dom (List c). length (cached c k))"
    by (simp only: p length_pushed_pushResults [OF assms(1)])
  moreover have "pushed (snd (Publish ks1 c)) = concat (map (cached c) (range_keys ks1 (List c)))"
    by (simp only: p pushed_pushResults)
  ultimately show ?thesis by (simp add: Publish_def)
qed

theorem Publish_twice_witness:
  "range_order [''10.0.0.1'', ''10.0.0.2''] (List cache_two)
 \<and> range_order [''10.0.0.2'', ''10.0.0.1''] (List cache_two)
 \<and> mset (snd (Publish [''10.0.0.2'', ''10.0.0.1''] (fst (Publish [''10.0.0.1'', ''10.0.0.2''] cache_two))))
     = mset (snd (Publish [''10.0.0.1'', ''10.0.0.2''] cache_two))
 \<and> pushed (snd (Publish [''10.0.0.1'', ''10.0.0.2''] cache_two)) = [res22, res80]"
proof -
  have h1: "range_order [''10.0.0.1'', ''10.0.0.2''] (List cache_two)"
    by (simp add: range_order_def cache_two_def)
  have h2: "range_order [''10.0.0.2'', ''10.0.0.1''] (List cache_two)"
    by (auto simp add: range_order_def cache_two_def)
  have k: "concat (map (cached cache_two) (range_keys [''10.0.0.1'', ''10.0.0.2''] (List cache_two))) = [res22, res80]"
    by (simp add: range_keys_def cached_def cache_two_def)
  note t = Publish_twice [OF h1 h2]
  from t have a: "mset (snd (Publish [''10.0.0.2'', ''10.0.0.1''] (fst (Publish [''10.0.0.1'', ''10.0.0.2''] cache_two))))
     = mset (snd (Publish [''10.0.0.1'', ''10.0.0.2''] cache_two))"
    by blast
  from t have b: "pushed (snd (Publish [''10.0.0.1'', ''10.0.0.2''] cache_two))
     = concat (map (cached cache_two) (range_keys [''10.0.0.1'', ''10.0.0.2''] (List cache_two)))"
    by blast
  show ?thesis
    using h1 h2 a b unfolding k by blast
qed

theorem Publish_twice_counterexample:
  "range_order [''10.0.0.1'', ''10.0.0.2''] (List cache_two)
 \<and> range_order [''10.0.0.2'', ''10.0.0.1''] (List cache_two)
 \<and> snd (Publish [''10.0.0.1'', ''10.0.0.2''] cache_two) = [ResultCleanup, ResultPush res22, ResultPush res80]
 \<and> snd (Publish [''10.0.0.2'', ''10.0.0.1''] (fst (Publish [''10.0.0.1'', ''10.0.0.2''] cache_two)))
     = [ResultCleanup, ResultPush res80, ResultPush res22]
 \<and> snd (Publish [''10.0.0.2'', ''10.0.0.1''] (fst (Publish [''10.0.0.1'', ''10.0.0.2''] cache_two)))
     \<noteq> snd (Publish [''10.0.0.1'', ''10.0.0.2''] cache_two)"
  by (auto simp add: range_order_def Publish_def pushResults_def range_keys_def cache_two_def res22_def res80_def)

subsection \<open>What a pass emits\<close>









subsection \<open>The gate\<close>

lemma Itoa_22: "Itoa 22 = ''22''"
  by (simp add: Itoa_def digit_def)

lemma scanIp_pip1_gate: "scanIp env1 pip1 cache_gate = ([res22], 0)"
  by (simp add: scanIp_def env1_def pip1_def cache_gate_def to_String_def res22_def Itoa_22 Let_def)

lemma Cleanup_Enabled: "Cleanup ks (c\<lparr>Enabled := b\<rparr>) = (Cleanup ks c)\<lparr>Enabled := b\<rparr>"
  by (simp add: Cleanup_def orphanedIpList_def)

lemma pushResults_Enabled: "pushResults ks (c\<lparr>Enabled := b\<rparr>) = pushResults ks c"
  by (simp add: pushResults_def)

lemma Publish_Enabled: "Publish ks (c\<lparr>Enabled := b\<rparr>) = (fst (Publish ks c)\<lparr>Enabled := b\<rparr>, snd (Publish ks c))"
  by (simp add: Publish_def pushResults_Enabled)

lemma addResults_Enabled:
  "addResults ks pip R (c\<lparr>Enabled := b\<rparr>) = (fst (addResults ks pip R c)\<lparr>Enabled := b\<rparr>, snd (addResults ks pip R c))"
  by (simp add: addResults_def Let_def pushResults_def)

lemma scanIp_Enabled: "scanIp env pip (c\<lparr>Enabled := b\<rparr>) = scanIp env pip c"
  by (simp add: scanIp_def)

lemma scan_tasks_Enabled:
  "scan_tasks env rng n pips (c\<lparr>Enabled := b\<rparr>)
     = (fst (scan_tasks env rng n pips c)\<lparr>Enabled := b\<rparr>, snd (scan_tasks env rng n pips c))"
proof (induction pips arbitrary: c n)
  case Nil
  show ?case by simp
next
  case (Cons pip pips)
  show ?case
    by (simp add: scanIp_Enabled addResults_Enabled Cons.IH split_beta Let_def)
qed

lemma Start_Enabled:
  "Start env rng ips (c\<lparr>Enabled := b\<rparr>) = (fst (Start env rng ips c)\<lparr>Enabled := b\<rparr>, snd (Start env rng ips c))"
  by (simp add: Start_def Let_def split_beta Cleanup_Enabled Publish_Enabled scan_tasks_Enabled)

lemma Enabled_scan_tasks: "Enabled (fst (scan_tasks env rng n pips c)) = Enabled c"
  by (induction pips arbitrary: c n) (simp_all add: split_beta Let_def addResults_def)

text \<open>
  C3. \<open>Enable\<close> sets the gate and nothing else. \<open>Start\<close> neither reads nor writes the
  gate: a pass from a state with the gate closed emits the events and makes the changes
  to the cache and the discovery set that the pass from the same state with the gate open
  does, and leaves the gate as it found it. Whether a pass runs while the gate is closed
  is up to the caller of \<open>Start\<close>.
\<close>

theorem Start_ignores_Enabled:
  "Enable c = c\<lparr>Enabled := True\<rparr>
 \<and> Start env rng ips (c\<lparr>Enabled := False\<rparr>)
     = (fst (Start env rng ips (c\<lparr>Enabled := True\<rparr>))\<lparr>Enabled := False\<rparr>,
        snd (Start env rng ips (c\<lparr>Enabled := True\<rparr>)))
 \<and> Enabled (fst (Start env rng ips c)) = Enabled c"
proof -
  have "Enabled (fst (Start env rng ips c)) = Enabled c"
    by (simp add: Start_def Let_def split_beta Publish_def Enabled_scan_tasks Cleanup_def)
  then show ?thesis
    by (simp add: Enable_def Start_Enabled)
qed

theorem Start_gate_counterexample:
  "Enabled cache_gate = False
 \<and> List cache_gate ''10.0.0.1'' = None
 \<and> snd (Start env1 rng1 [''10.0.0.1''] cache_gate)
     = [StartupScan, ResultCleanup, StartScanIpAdress pip1, FinishScanIpAdress pip1 0,
        ResultPush res22, ResultCleanup, ResultPush res22, FinishScan]
 \<and> List (fst (Start env1 rng1 [''10.0.0.1''] cache_gate)) ''10.0.0.1'' = Some [res22]"
proof -
  have c1: "Cleanup ks cache_gate = cache_gate" for ks
    by (simp add: Cleanup_def orphanedIpList_def range_keys_def cache_gate_def)
  have p1: "Publish ks cache_gate = (cache_gate, [ResultCleanup])" for ks
    by (simp add: Publish_def pushResults_def range_keys_def cache_gate_def)
  have rv: "range_values [''10.0.0.1''] (PublicIps cache_gate) = [pip1]"
    by (simp add: range_values_def cache_gate_def List.map_filter_simps)
  define c' where "c' = cache_gate\<lparr>List := [''10.0.0.1'' \<mapsto> [res22]]\<rparr>"
  have ar: "addResults (rng1 n) pip1 [res22] cache_gate = (c', [ResultPush res22])" for n
    by (simp add: addResults_def Let_def c'_def pushResults_def range_keys_def rng1_def
        to_String_def pip1_def cache_gate_def)
  have c2: "Cleanup (rng1 n) c' = c'" for n
    by (simp add: Cleanup_def orphanedIpList_def range_keys_def c'_def cache_gate_def rng1_def)
  have p2: "Publish (rng1 n) c' = (c', [ResultCleanup, ResultPush res22])" for n
    by (simp add: Publish_def pushResults_def range_keys_def c'_def cache_gate_def rng1_def)
  have "Start env1 rng1 [''10.0.0.1''] cache_gate
      = (c', [StartupScan, ResultCleanup, StartScanIpAdress pip1, FinishScanIpAdress pip1 0,
              ResultPush res22, ResultCleanup, ResultPush res22, FinishScan])"
    by (simp add: Start_def Let_def c1 p1 rv scanIp_pip1_gate ar c2 p2)
  then show ?thesis
    by (simp add: c'_def) (simp add: cache_gate_def)
qed

subsection \<open>What addResults emits\<close>















subsection \<open>Loading and saving the cache\<close>




lemma CacheLoad_Object:
  assumes "os_Open w path = Inr (Object l p err)"
  shows "CacheLoad w ks1 ks2 path c =
     Inr (Cleanup ks1 (c\<lparr>List := store_members l (List c), PublicIps := store_members p (PublicIps c)\<rparr>),
          (case err of None \<Rightarrow> [] | Some e \<Rightarrow> [LogError (''failed to load portscanner cache: '' @ e)])
            @ ResultCleanup # pushResults ks2
                (Cleanup ks1 (c\<lparr>List := store_members l (List c), PublicIps := store_members p (PublicIps c)\<rparr>)))"
  by (simp add: CacheLoad_def assms Let_def Publish_def)




text \<open>
  C6. \<open>CacheLoad\<close> of a file that does not open panics with the error of the open. On
  a file whose contents fail to deserialize, the error is logged and the load goes on:
  it runs \<open>Cleanup\<close> and \<open>Publish\<close> on the scanner as the decoder left it (unchanged for
  a text that is not JSON) and returns normally, the logged error first in its trace.
  \<open>CacheSave\<close> panics with the error of the write when the write fails, and returns
  normally otherwise.
\<close>

theorem CacheLoad_CacheSave_errors:
  "(os_Open w path = Inl e \<longrightarrow> CacheLoad w ks1 ks2 path c = Inl (Panic e))
 \<and> (os_Open w path = Inr (Invalid e) \<longrightarrow>
       CacheLoad w ks1 ks2 path c
         = Inr (fst (Publish ks2 (Cleanup ks1 c)),
                LogError (''failed to load portscanner cache: '' @ e) # snd (Publish ks2 (Cleanup ks1 c))))
 \<and> (os_Open w path = Inr (Object l p (Some e)) \<longrightarrow>
       \<not> isl (CacheLoad w ks1 ks2 path c)
       \<and> snd (projr (CacheLoad w ks1 ks2 path c))
           = LogError (''failed to load portscanner cache: '' @ e)
               # snd (Publish ks2 (fst (projr (CacheLoad w ks1 ks2 path c)))))
 \<and> (ioutil_WriteFile w path c = Some e \<longrightarrow> CacheSave w path c = Inl (Panic e))
 \<and> (ioutil_WriteFile w path c = None \<longrightarrow> CacheSave w path c = Inr ())"
proof (intro conjI impI)
  assume "os_Open w path = Inl e"
  then show "CacheLoad w ks1 ks2 path c = Inl (Panic e)"
    by (simp add: CacheLoad_def)
next
  assume "os_Open w path = Inr (Invalid e)"
  then show "CacheLoad w ks1 ks2 path c
         = Inr (fst (Publish ks2 (Cleanup ks1 c)),
                LogError (''failed to load portscanner cache: '' @ e) # snd (Publish ks2 (Cleanup ks1 c)))"
    by (simp add: CacheLoad_def Let_def split_beta)
next
  assume o: "os_Open w path = Inr (Object l p (Some e))"
  show "\<not> isl (CacheLoad w ks1 ks2 path c)"
    by (simp add: CacheLoad_Object [OF o])
  show "snd (projr (CacheLoad w ks1 ks2 path c))
           = LogError (''failed to load portscanner cache: '' @ e)
               # snd (Publish ks2 (fst (projr (CacheLoad w ks1 ks2 path c))))"
    by (simp add: CacheLoad_Object [OF o] Publish_def)
next
  assume "ioutil_WriteFile w path c = Some e"
  then show "CacheSave w path c = Inl (Panic e)"
    by (simp add: CacheSave_def)
next
  assume "ioutil_WriteFile w path c = None"
  then show "CacheSave w path c = Inr ()"
    by (simp add: CacheSave_def)
qed

theorem CacheLoad_CacheSave_errors_witness:
  "os_Open world1 ''missing.json'' = Inl ''no such file or directory''
 \<and> CacheLoad world1 [''10.0.0.1''] [''10.0.0.1''] ''missing.json'' cache_prior
     = Inl (Panic ''no such file or directory'')
 \<and> os_Open world1 ''corrupt.json'' = Inr (Invalid ''unexpected end of JSON input'')
 \<and> CacheLoad world1 [''10.0.0.1''] [''10.0.0.1''] ''corrupt.json'' cache_prior
     = Inr (fst (Publish [''10.0.0.1''] (Cleanup [''10.0.0.1''] cache_prior)),
            LogError ''failed to load portscanner cache: unexpected end of JSON input''
              # snd (Publish [''10.0.0.1''] (Cleanup [''10.0.0.1''] cache_prior)))
 \<and> os_Open world1 ''mistyped.json''
     = Inr (Object [IsObject [(''10.0.0.1'', [res22])]] [] (Some ''cannot unmarshal number into Go struct field''))
 \<and> \<not> isl (CacheLoad world1 [''10.0.0.1''] [''10.0.0.1''] ''mistyped.json'' cache_prior)
 \<and> ioutil_WriteFile world1 ''/proc/cache.json'' cache_prior = Some ''permission denied''
 \<and> CacheSave world1 ''/proc/cache.json'' cache_prior = Inl (Panic ''permission denied'')
 \<and> ioutil_WriteFile world1 ''cache.json'' cache_prior = None
 \<and> CacheSave world1 ''cache.json'' cache_prior = Inr ()"
proof -
  have h1: "os_Open world1 ''missing.json'' = Inl ''no such file or directory''"
    by (simp add: world1_def)
  have h2: "ioutil_WriteFile world1 ''/proc/cache.json'' cache_prior = Some ''permission denied''"
    by (simp add: world1_def)
  have h3: "ioutil_WriteFile world1 ''cache.json'' cache_prior = None"
    by (simp add: world1_def)
  have h4: "os_Open world1 ''corrupt.json'' = Inr (Invalid ''unexpected end of JSON input'')"
    by (simp add: world1_def)
  have h5: "os_Open world1 ''mistyped.json''
     = Inr (Object [IsObject [(''10.0.0.1'', [res22])]] [] (Some ''cannot unmarshal number into Go struct field''))"
    by (simp add: world1_def)
  from CacheLoad_CacheSave_errors [of world1 "''missing.json''" "''no such file or directory''"
      "[''10.0.0.1'']" "[''10.0.0.1'']" cache_prior] h1
  have a: "CacheLoad world1 [''10.0.0.1''] [''10.0.0.1''] ''missing.json'' cache_prior
         = Inl (Panic ''no such file or directory'')"
    by blast
  from CacheLoad_CacheSave_errors [of world1 "''/proc/cache.json''" "''permission denied''" _ _ cache_prior] h2
  have b: "CacheSave world1 ''/proc/cache.json'' cache_prior = Inl (Panic ''permission denied'')"
    by blast
  from CacheLoad_CacheSave_errors [of world1 "''cache.json''" _ _ _ cache_prior] h3
  have c: "CacheSave world1 ''cache.json'' cache_prior = Inr ()"
    by blast
  from CacheLoad_CacheSave_errors [of world1 "''corrupt.json''" "''unexpected end of JSON input''"
      "[''10.0.0.1'']" "[''10.0.0.1'']" cache_prior] h4
  have d: "CacheLoad world1 [''10.0.0.1''] [''10.0.0.1''] ''corrupt.json'' cache_prior
     = Inr (fst (Publish [''10.0.0.1''] (Cleanup [''10.0.0.1''] cache_prior)),
            LogError (''failed to load portscanner cache: '' @ ''unexpected end of JSON input'')
              # snd (Publish [''10.0.0.1''] (Cleanup [''10.0.0.1''] cache_prior)))"
    by blast
  from CacheLoad_CacheSave_errors [of world1 "''mistyped.json''" "''cannot unmarshal number into Go struct field''"
      "[''10.0.0.1'']" "[''10.0.0.1'']" cache_prior "[IsObject [(''10.0.0.1'', [res22])]]" "[]"] h5
  have e: "\<not> isl (CacheLoad world1 [''10.0.0.1''] [''10.0.0.1''] ''mistyped.json'' cache_prior)"
    by blast
  have app: "''failed to load portscanner cache: '' @ ''unexpected end of JSON input''
           = ''failed to load portscanner cache: unexpected end of JSON input''"
    by simp
  show ?thesis
    using h1 h2 h3 h4 h5 a b c d e unfolding app by blast
qed

theorem CacheLoad_corrupt_counterexample:
  "os_Open world1 ''corrupt.json'' = Inr (Invalid ''unexpected end of JSON input'')
 \<and> CacheLoad world1 [''10.0.0.1''] [''10.0.0.1''] ''corrupt.json'' cache_prior
     = Inr (cache_prior,
            [LogError ''failed to load portscanner cache: unexpected end of JSON input'',
             ResultCleanup, ResultPush res22])"
proof -
  have h1: "os_Open world1 ''corrupt.json'' = Inr (Invalid ''unexpected end of JSON input'')"
    by (simp add: world1_def)
  have cl: "Cleanup [''10.0.0.1''] cache_prior = cache_prior"
    by (simp add: Cleanup_def orphanedIpList_def range_keys_def cache_prior_def)
  have pr: "pushResults [''10.0.0.1''] cache_prior = [ResultPush res22]"
    by (simp add: pushResults_def range_keys_def cache_prior_def)
  show ?thesis
    by (simp add: h1 CacheLoad_def Let_def cl Publish_def pr)
qed

subsection \<open>A collector that fails\<close>

lemma usage_values_no_fetch:
  "isl (computeUsage_locations env s locations m)
     \<or> \<not> list_ex (\<lambda>location. isl (compute_usage_List env s location)) locations"
proof (induction locations arbitrary: m)
  case Nil
  show ?case by simp
next
  case (Cons location locations)
  show ?case
  proof (cases "compute_usage_List env s location")
    case (Inl err)
    then show ?thesis by simp
  next
    case (Inr list)
    show ?thesis
    proof (cases "usage_values env s location ''compute'' list m")
      case (Inl p)
      then show ?thesis by (simp add: Inr)
    next
      case (Inr m')
      then show ?thesis
        using Cons.IH [of m'] \<open>compute_usage_List env s location = Inr list\<close> by simp
    qed
  qed
qed

lemma collectAzureComputeUsage_fails:
  "list_ex (\<lambda>location. isl (compute_usage_List env s location)) (AzureLocation env)
   \<Longrightarrow> isl (collectAzureComputeUsage env s m)"
  using usage_values_no_fetch [of env s "AzureLocation env" m]
  by (simp add: collectAzureComputeUsage_def)

lemma collectAzureStorageUsage_fails:
  "AzureLocation env \<noteq> [] \<Longrightarrow> isl (storage_usage_List env s)
   \<Longrightarrow> isl (collectAzureStorageUsage env s m)"
  by (cases "AzureLocation env"; cases "storage_usage_List env s")
     (simp_all add: collectAzureStorageUsage_def)

lemma run_task_fails:
  assumes "fetch_fails env t"
  shows "isl (run_task env t st)"
proof (cases st)
  case (Pair m ips)
  show ?thesis
  proof (cases t)
    case (SubscriptionTask s)
    then show ?thesis
      using assms by (cases "subscriptions_Get env s") (simp_all add: Pair collectAzureSubscription_def)
  next
    case (ResourceGroupTask s)
    then show ?thesis
      using assms by (cases "groups_ListComplete env s") (simp_all add: Pair collectAzureResourceGroup_def)
  next
    case (PublicIpTask s)
    then show ?thesis
      using assms by (cases "publicIPAddresses_ListAll env s") (simp_all add: Pair collectAzurePublicIp_def)
  next
    case (ComputeUsageTask s)
    have "isl (collectAzureComputeUsage env s m)"
      using assms by (simp add: ComputeUsageTask collectAzureComputeUsage_fails)
    then show ?thesis
      by (cases "collectAzureComputeUsage env s m") (simp_all add: Pair ComputeUsageTask)
  next
    case (NetworkUsageTask s)
    then show ?thesis using assms by simp
  next
    case (StorageUsageTask s)
    have "isl (collectAzureStorageUsage env s m)"
      using assms by (simp add: StorageUsageTask collectAzureStorageUsage_fails)
    then show ?thesis
      by (cases "collectAzureStorageUsage env s m") (simp_all add: Pair StorageUsageTask)
  qed
qed

lemma run_tasks_fails:
  "t \<in> set sched \<Longrightarrow> fetch_fails env t \<Longrightarrow> isl (run_tasks env sched st)"
proof (induction sched arbitrary: st)
  case Nil
  then show ?case by simp
next
  case (Cons t' ts)
  show ?case
  proof (cases "run_task env t' st")
    case (Inl p)
    then show ?thesis by simp
  next
    case (Inr st')
    then have "\<not> fetch_fails env t'"
      using run_task_fails [of env t' st] by auto
    then have "t \<in> set ts"
      using Cons.prems by auto
    then show ?thesis
      using Cons.IH [of st'] Cons.prems(2) by (simp add: Inr)
  qed
qed

lemma run_tasks_append:
  "run_tasks env (pre @ post) st =
     (case run_tasks env pre st of Inl p \<Rightarrow> Inl p | Inr st' \<Rightarrow> run_tasks env post st')"
  by (induction pre arbitrary: st) (simp_all split: sum.splits)

lemma run_tasks_stop:
  assumes "fetch_fails env t"
  shows "run_tasks env (pre @ t # post) st = run_tasks env (pre @ [t]) st"
proof (cases "run_tasks env pre st")
  case (Inl p)
  then show ?thesis by (simp add: run_tasks_append)
next
  case (Inr st')
  have "isl (run_task env t st')"
    using assms by (rule run_task_fails)
  then obtain p where "run_task env t st' = Inl p"
    by (cases "run_task env t st'") simp_all
  then show ?thesis
    by (simp add: run_tasks_append Inr)
qed

text \<open>
  C4. A collector whose call of the API fails panics, and nothing recovers from the
  panic at the boundary of its task: for every order in which the tasks of a cycle run,
  the cycle ends in a panic as soon as one of its tasks has a failing call. The tasks
  that the order puts after the failing one do not run: the outcome is the same without
  them.
\<close>

theorem collector_panic_ends_cycle:
  "(t \<in> set sched \<and> fetch_fails env t \<longrightarrow> isl (runMetricsCollectionAzureRm env sched m))
 \<and> (fetch_fails env t \<longrightarrow>
       runMetricsCollectionAzureRm env (pre @ t # post) m
         = runMetricsCollectionAzureRm env (pre @ [t]) m)
 \<and> (subscriptions_Get env s = Inl e \<longrightarrow>
       run_task env (SubscriptionTask s) (m, ips) = Inl (Panic e, m))"
proof (intro conjI impI)
  assume a: "t \<in> set sched \<and> fetch_fails env t"
  show "isl (runMetricsCollectionAzureRm env sched m)"
    unfolding runMetricsCollectionAzureRm_def
    by (rule run_tasks_fails [of t]) (simp_all add: a)
next
  assume "fetch_fails env t"
  then show "runMetricsCollectionAzureRm env (pre @ t # post) m
         = runMetricsCollectionAzureRm env (pre @ [t]) m"
    unfolding runMetricsCollectionAzureRm_def by (rule run_tasks_stop)
next
  assume "subscriptions_Get env s = Inl e"
  then show "run_task env (SubscriptionTask s) (m, ips) = Inl (Panic e, m)"
    by (simp add: collectAzureSubscription_def)
qed

lemma run_fail_S:
  "runMetricsCollectionAzureRm env_fail (spawned [''S'']) metrics_prior
     = Inl (Panic ''subscription request failed'',
            metrics_prior\<lparr>prometheusResourceGroup := Map.empty, prometheusPublicIp := Map.empty\<rparr>)"
  by (simp add: runMetricsCollectionAzureRm_def spawned_def collectAzureSubscription_def env_fail_def)

theorem collector_panic_ends_cycle_witness:
  "SubscriptionTask ''S'' \<in> set (spawned [''S''])
 \<and> fetch_fails env_fail (SubscriptionTask ''S'')
 \<and> isl (runMetricsCollectionAzureRm env_fail (spawned [''S'']) metrics_prior)
 \<and> runMetricsCollectionAzureRm env_fail ([ResourceGroupTask ''S''] @ SubscriptionTask ''S'' # [PublicIpTask ''S'']) metrics_prior
     = runMetricsCollectionAzureRm env_fail ([ResourceGroupTask ''S''] @ [SubscriptionTask ''S'']) metrics_prior
 \<and> subscriptions_Get env_fail ''S'' = Inl ''subscription request failed''
 \<and> run_task env_fail (SubscriptionTask ''S'') (metrics_prior, [])
     = Inl (Panic ''subscription request failed'', metrics_prior)"
proof -
  have h1: "SubscriptionTask ''S'' \<in> set (spawned [''S''])"
    by (simp add: spawned_def)
  have h2: "fetch_fails env_fail (SubscriptionTask ''S'')"
    by (simp add: env_fail_def)
  have h3: "subscriptions_Get env_fail ''S'' = Inl ''subscription request failed''"
    by (simp add: env_fail_def)
  from collector_panic_ends_cycle [of "SubscriptionTask ''S''" "spawned [''S'']" env_fail metrics_prior] h1 h2
  have a: "isl (runMetricsCollectionAzureRm env_fail (spawned [''S'']) metrics_prior)"
    by blast
  from collector_panic_ends_cycle [of "SubscriptionTask ''S''" _ env_fail metrics_prior "[ResourceGroupTask ''S'']" "[PublicIpTask ''S'']"] h2
  have b: "runMetricsCollectionAzureRm env_fail ([ResourceGroupTask ''S''] @ SubscriptionTask ''S'' # [PublicIpTask ''S'']) metrics_prior
     = runMetricsCollectionAzureRm env_fail ([ResourceGroupTask ''S''] @ [SubscriptionTask ''S'']) metrics_prior"
    by blast
  from collector_panic_ends_cycle [of _ _ env_fail metrics_prior _ _ "''S''" "''subscription request failed''" "[]"] h3
  have c: "run_task env_fail (SubscriptionTask ''S'') (metrics_prior, [])
     = Inl (Panic ''subscription request failed'', metrics_prior)"
    by blast
  show ?thesis
    using h1 h2 h3 a b c by blast
qed

theorem collector_panic_counterexample:
  "fetch_fails env_fail (SubscriptionTask ''S'')
 \<and> \<not> fetch_fails env_fail (ResourceGroupTask ''S'')
 \<and> runMetricsCollectionAzureRm env_fail (spawned [''S'']) metrics_prior
     = Inl (Panic ''subscription request failed'',
            metrics_prior\<lparr>prometheusResourceGroup := Map.empty, prometheusPublicIp := Map.empty\<rparr>)
 \<and> prometheusResourceGroup (snd (projl (runMetricsCollectionAzureRm env_fail (spawned [''S'']) metrics_prior)))
     = Map.empty"
  by (simp add: run_fail_S) (simp add: env_fail_def)

subsection \<open>What the collectors write\<close>

lemma metrics_of_simps [simp]:
  "metrics_of (Inl (p, m)) = m" "metrics_of (Inr m) = m"
  by (simp_all add: metrics_of_def)

lemma keeps_refl: "keeps m m"
  by (simp add: keeps_def gauge_vectors_def)

lemma keeps_trans: "keeps m m' \<Longrightarrow> keeps m' m'' \<Longrightarrow> keeps m m''"
  unfolding keeps_def list_all_iff by blast

lemma untouched_refl: "untouched gs m m"
  by (simp add: untouched_def list_all_iff)

lemma untouched_trans: "untouched gs m m' \<Longrightarrow> untouched gs m' m'' \<Longrightarrow> untouched gs m m''"
  by (simp add: untouched_def list_all_iff)

text \<open>
  Each loop of a collector goes from gauges to gauges by steps; a relation that is
  reflexive and transitive and holds of every step holds of the loop.
\<close>

lemma usage_values_rel:
  assumes refl: "\<And>m. R m m" and trans: "\<And>m m' m''. R m m' \<Longrightarrow> R m' m'' \<Longrightarrow> R m m''"
    and step: "\<And>val m. R m (metrics_of (usage_step env s location scope val m))"
  shows "R m (metrics_of (usage_values env s location scope vals m))"
proof (induction vals arbitrary: m)
  case Nil
  show ?case by (simp add: refl)
next
  case (Cons val vals)
  show ?case
  proof (cases "usage_step env s location scope val m")
    case (Inl p)
    then show ?thesis using step [of m val] by simp
  next
    case (Inr m')
    have "R m m'" using step [of m val] by (simp add: Inr)
    moreover have "R m' (metrics_of (usage_values env s location scope vals m'))" by (rule Cons.IH)
    ultimately show ?thesis by (simp add: Inr) (rule trans)
  qed
qed

lemma computeUsage_locations_rel:
  assumes refl: "\<And>m. R m m" and trans: "\<And>m m' m''. R m m' \<Longrightarrow> R m' m'' \<Longrightarrow> R m m''"
    and step: "\<And>location val m. R m (metrics_of (usage_step env s location ''compute'' val m))"
  shows "R m (metrics_of (computeUsage_locations env s locations m))"
proof (induction locations arbitrary: m)
  case Nil
  show ?case by (simp add: refl)
next
  case (Cons location locations)
  show ?case
  proof (cases "compute_usage_List env s location")
    case (Inl err)
    then show ?thesis by (simp add: refl)
  next
    case (Inr list)
    note fetched = Inr
    have u: "R m (metrics_of (usage_values env s location ''compute'' list m))"
      by (rule usage_values_rel [of R, OF refl trans step])
    show ?thesis
    proof (cases "usage_values env s location ''compute'' list m")
      case (Inl p)
      then show ?thesis using u by (simp add: fetched)
    next
      case (Inr m')
      have "R m m'" using u by (simp add: Inr)
      moreover have "R m' (metrics_of (computeUsage_locations env s locations m'))" by (rule Cons.IH)
      ultimately show ?thesis by (simp add: fetched Inr) (rule trans)
    qed
  qed
qed

lemma storageUsage_locations_rel:
  assumes refl: "\<And>m. R m m" and trans: "\<And>m m' m''. R m m' \<Longrightarrow> R m' m'' \<Longrightarrow> R m m''"
    and step: "\<And>location val m. R m (metrics_of (usage_step env s location ''storage'' val m))"
  shows "R m (metrics_of (storageUsage_locations env s locations m))"
proof (induction locations arbitrary: m)
  case Nil
  show ?case by (simp add: refl)
next
  case (Cons location locations)
  show ?case
  proof (cases "storage_usage_List env s")
    case (Inl err)
    then show ?thesis by (simp add: refl)
  next
    case (Inr answer)
    show ?thesis
    proof (cases answer)
      case None
      then show ?thesis by (simp add: Inr refl)
    next
      case (Some list)
      note fetched = Inr Some
      have u: "R m (metrics_of (usage_values env s location ''storage'' list m))"
        by (rule usage_values_rel [of R, OF refl trans step])
      show ?thesis
      proof (cases "usage_values env s location ''storage'' list m")
        case (Inl p)
        then show ?thesis using u by (simp add: fetched)
      next
        case (Inr m')
        have "R m m'" using u by (simp add: Inr)
        moreover have "R m' (metrics_of (storageUsage_locations env s locations m'))" by (rule Cons.IH)
        ultimately show ?thesis by (simp add: fetched Inr) (rule trans)
      qed
    qed
  qed
qed

lemma resourceGroup_items_rel:
  assumes refl: "\<And>m. R m m" and trans: "\<And>m m' m''. R m m' \<Longrightarrow> R m' m'' \<Longrightarrow> R m m''"
    and step: "\<And>labels m. R m (m\<lparr>prometheusResourceGroup := (prometheusResourceGroup m)(labels \<mapsto> 1)\<rparr>)"
  shows "R m (metrics_of (resourceGroup_items env s items m))"
proof (induction items arbitrary: m)
  case Nil
  show ?case by (simp add: refl)
next
  case (Cons item items)
  show ?case
  proof (cases "rgLabels env s item")
    case None
    then show ?thesis by (simp add: refl)
  next
    case (Some labels)
    have "R m (m\<lparr>prometheusResourceGroup := (prometheusResourceGroup m)(labels \<mapsto> 1)\<rparr>)"
      by (rule step)
    moreover have "R (m\<lparr>prometheusResourceGroup := (prometheusResourceGroup m)(labels \<mapsto> 1)\<rparr>)
        (metrics_of (resourceGroup_items env s items
           (m\<lparr>prometheusResourceGroup := (prometheusResourceGroup m)(labels \<mapsto> 1)\<rparr>)))"
      by (rule Cons.IH)
    ultimately show ?thesis by (simp add: Some) (rule trans)
  qed
qed

lemma collectAzureResourceGroup_rel:
  assumes refl: "\<And>m. R m m" and trans: "\<And>m m' m''. R m m' \<Longrightarrow> R m' m'' \<Longrightarrow> R m m''"
    and step: "\<And>labels m. R m (m\<lparr>prometheusResourceGroup := (prometheusResourceGroup m)(labels \<mapsto> 1)\<rparr>)"
  shows "R m (metrics_of (collectAzureResourceGroup env s m))"
proof (cases "groups_ListComplete env s")
  case (Inl err)
  then show ?thesis by (simp add: collectAzureResourceGroup_def refl)
next
  case (Inr answer)
  show ?thesis
  proof (cases answer)
    case None
    then show ?thesis by (simp add: collectAzureResourceGroup_def Inr refl)
  next
    case (Some items)
    have "R m (metrics_of (resourceGroup_items env s items m))"
      by (rule resourceGroup_items_rel [of R, OF refl trans step])
    then show ?thesis
      by (simp add: collectAzureResourceGroup_def Inr Some)
  qed
qed

lemma dom_With: "dom g \<subseteq> dom (With labels g)"
  by (auto simp: With_def split: option.splits)

lemma usage_step_keeps: "keeps m (metrics_of (usage_step env s location scope val m))"
  unfolding keeps_def gauge_vectors_def usage_step_def Let_def
  using dom_With by (auto split: option.splits)

lemma usage_step_untouched:
  "untouched [prometheusSubscription, prometheusResourceGroup, prometheusPublicIp, prometheusApiQuota]
     m (metrics_of (usage_step env s location scope val m))"
  by (simp add: untouched_def usage_step_def Let_def split: option.splits)

lemma ResourceGroup_Set_keeps:
  "keeps m (m\<lparr>prometheusResourceGroup := (prometheusResourceGroup m)(l \<mapsto> v)\<rparr>)"
  unfolding keeps_def gauge_vectors_def by auto

lemma ResourceGroup_Set_untouched:
  "untouched [prometheusSubscription, prometheusPublicIp, prometheusApiQuota,
              prometheusQuota, prometheusQuotaCurrent, prometheusQuotaLimit]
     m (m\<lparr>prometheusResourceGroup := (prometheusResourceGroup m)(l \<mapsto> v)\<rparr>)"
  by (simp add: untouched_def)

lemma probeProcessHeader_keeps: "keeps m (metrics_of (probeProcessHeader env response header labels m))"
  unfolding keeps_def gauge_vectors_def probeProcessHeader_def Let_def
  by (auto split: option.splits sum.splits)

lemma probeProcessHeaders_keeps: "keeps m (metrics_of (probeProcessHeaders env response calls m))"
proof (induction calls arbitrary: m)
  case Nil
  show ?case by (simp add: keeps_refl)
next
  case (Cons call calls)
  obtain header labels where call: "call = (header, labels)" by (cases call)
  show ?case
  proof (cases "probeProcessHeader env response header labels m")
    case (Inl p)
    then show ?thesis
      using probeProcessHeader_keeps [of m env response header labels] by (simp add: call)
  next
    case (Inr m')
    have "keeps m m'"
      using probeProcessHeader_keeps [of m env response header labels] by (simp add: Inr)
    moreover have "keeps m' (metrics_of (probeProcessHeaders env response calls m'))"
      by (rule Cons.IH)
    ultimately show ?thesis by (simp add: call Inr) (rule keeps_trans)
  qed
qed

lemma Subscription_Set_keeps:
  "keeps m (m\<lparr>prometheusSubscription := (prometheusSubscription m)(l \<mapsto> v)\<rparr>)"
  unfolding keeps_def gauge_vectors_def by auto

lemma collectAzureSubscription_keeps: "keeps m (metrics_of (collectAzureSubscription env s m))"
proof (cases "subscriptions_Get env s")
  case (Inl err)
  then show ?thesis
    by (simp add: collectAzureSubscription_def keeps_refl)
next
  case (Inr sub)
  show ?thesis
  proof (cases "subscriptionLabels sub")
    case None
    then show ?thesis
      by (simp add: collectAzureSubscription_def Inr keeps_refl)
  next
    case (Some labels)
    show ?thesis
      unfolding collectAzureSubscription_def Inr Some sum.case option.case
      by (rule keeps_trans [OF Subscription_Set_keeps probeProcessHeaders_keeps])
  qed
qed

lemma publicIp_step_keeps: "keeps m (metrics_after (publicIp_step s val (m, ips)))"
  unfolding keeps_def gauge_vectors_def publicIp_step_def Let_def metrics_after_def
  by (auto split: option.splits)

lemma publicIp_values_keeps: "keeps m (metrics_after (publicIp_values s vals (m, ips)))"
proof (induction vals arbitrary: m ips)
  case Nil
  show ?case by (simp add: metrics_after_def keeps_refl)
next
  case (Cons val vals)
  show ?case
  proof (cases "publicIp_step s val (m, ips)")
    case (Inl p)
    then show ?thesis
      using publicIp_step_keeps [of m s val ips] by simp
  next
    case (Inr st')
    obtain m' ips' where st': "st' = (m', ips')" by (cases st')
    have "keeps m m'"
      using publicIp_step_keeps [of m s val ips] by (simp add: Inr st' metrics_after_def)
    moreover have "keeps m' (metrics_after (publicIp_values s vals (m', ips')))"
      by (rule Cons.IH)
    ultimately show ?thesis by (simp add: Inr st') (rule keeps_trans)
  qed
qed

lemma metrics_after_Subscription:
  "metrics_after (run_task env (SubscriptionTask s) (m, ips)) = metrics_of (collectAzureSubscription env s m)"
  by (simp add: metrics_after_def metrics_of_def split: sum.splits prod.splits)

lemma metrics_after_ResourceGroup:
  "metrics_after (run_task env (ResourceGroupTask s) (m, ips)) = metrics_of (collectAzureResourceGroup env s m)"
  by (simp add: metrics_after_def metrics_of_def split: sum.splits prod.splits)

lemma metrics_after_ComputeUsage:
  "metrics_after (run_task env (ComputeUsageTask s) (m, ips)) = metrics_of (collectAzureComputeUsage env s m)"
  by (simp add: metrics_after_def metrics_of_def split: sum.splits prod.splits)

lemma metrics_after_StorageUsage:
  "metrics_after (run_task env (StorageUsageTask s) (m, ips)) = metrics_of (collectAzureStorageUsage env s m)"
  by (simp add: metrics_after_def metrics_of_def split: sum.splits prod.splits)

lemma metrics_after_PublicIp:
  "metrics_after (run_task env (PublicIpTask s) (m, ips)) =
     (case publicIPAddresses_ListAll env s of
        Inl err \<Rightarrow> m
      | Inr list \<Rightarrow> metrics_after (publicIp_values s list (m, [])))"
  by (simp add: metrics_after_def collectAzurePublicIp_def split: sum.splits prod.splits)

lemma run_task_keeps: "keeps m (metrics_after (run_task env t (m, ips)))"
proof (cases t)
  case (SubscriptionTask s)
  show ?thesis
    unfolding SubscriptionTask metrics_after_Subscription by (rule collectAzureSubscription_keeps)
next
  case (ResourceGroupTask s)
  show ?thesis
    unfolding ResourceGroupTask metrics_after_ResourceGroup
    by (rule collectAzureResourceGroup_rel [of keeps, OF keeps_refl keeps_trans ResourceGroup_Set_keeps])
next
  case (PublicIpTask s)
  have "keeps m (case publicIPAddresses_ListAll env s of
                   Inl err \<Rightarrow> m
                 | Inr list \<Rightarrow> metrics_after (publicIp_values s list (m, [])))"
    using publicIp_values_keeps [of m s _ "[]"] by (simp add: keeps_refl split: sum.splits)
  then show ?thesis
    unfolding PublicIpTask metrics_after_PublicIp .
next
  case (ComputeUsageTask s)
  show ?thesis
    unfolding ComputeUsageTask metrics_after_ComputeUsage collectAzureComputeUsage_def
    by (rule computeUsage_locations_rel [of keeps, OF keeps_refl keeps_trans usage_step_keeps])
next
  case (NetworkUsageTask s)
  show ?thesis by (simp add: NetworkUsageTask metrics_after_def keeps_refl)
next
  case (StorageUsageTask s)
  show ?thesis
    unfolding StorageUsageTask metrics_after_StorageUsage collectAzureStorageUsage_def
    by (rule storageUsage_locations_rel [of keeps, OF keeps_refl keeps_trans usage_step_keeps])
qed

lemma resourceGroup_items_set:
  assumes "resourceGroup_items env s items m = Inr m'"
  shows "groups_set env s items m'
       \<and> (\<forall>labels. prometheusResourceGroup m labels = Some 1 \<longrightarrow> prometheusResourceGroup m' labels = Some 1)"
  using assms
proof (induction items arbitrary: m)
  case Nil
  then show ?case by (simp add: groups_set_def)
next
  case (Cons item items)
  from Cons.prems obtain labels where l: "rgLabels env s item = Some labels"
    by (cases "rgLabels env s item") simp_all
  define m1 where "m1 = m\<lparr>prometheusResourceGroup := (prometheusResourceGroup m)(labels \<mapsto> 1)\<rparr>"
  have r: "resourceGroup_items env s items m1 = Inr m'"
    using Cons.prems by (simp add: l m1_def)
  note ih = Cons.IH [OF r]
  have "prometheusResourceGroup m1 labels = Some 1"
    by (simp add: m1_def)
  with ih have here: "prometheusResourceGroup m' labels = Some 1"
    by blast
  have keep: "prometheusResourceGroup m' k = Some 1" if "prometheusResourceGroup m k = Some 1" for k
  proof -
    have "prometheusResourceGroup m1 k = Some 1"
      using that by (simp add: m1_def)
    with ih show ?thesis by blast
  qed
  show ?case
    using ih here keep by (simp add: groups_set_def l)
qed

text \<open>
  C8. The cycle itself resets the resource-group and the public-IP vector before it
  starts any task; the other five vectors are never reset. No task resets a vector:
  every label set that has a value before a task has one after it, whether the task
  panicked or not. The resource-group task writes only the resource-group vector, and
  the two quota tasks write only the three quota vectors. A quota task whose call fails
  for the first location panics with every vector as it found it, so the quota gauges
  of an earlier cycle are untouched at that point; a resource-group task that returns
  has set the gauge of every group it was given.
\<close>

theorem collectors_do_not_reset:
  "runMetricsCollectionAzureRm env [] m
     = Inr (m\<lparr>prometheusResourceGroup := Map.empty, prometheusPublicIp := Map.empty\<rparr>, [])
 \<and> keeps m (metrics_after (run_task env t (m, ips)))
 \<and> untouched [prometheusSubscription, prometheusPublicIp, prometheusApiQuota,
               prometheusQuota, prometheusQuotaCurrent, prometheusQuotaLimit]
      m (metrics_after (run_task env (ResourceGroupTask s) (m, ips)))
 \<and> untouched [prometheusSubscription, prometheusResourceGroup, prometheusPublicIp, prometheusApiQuota]
      m (metrics_after (run_task env (ComputeUsageTask s) (m, ips)))
 \<and> untouched [prometheusSubscription, prometheusResourceGroup, prometheusPublicIp, prometheusApiQuota]
      m (metrics_after (run_task env (StorageUsageTask s) (m, ips)))
 \<and> (AzureLocation env = location # locations \<and> compute_usage_List env s location = Inl e
       \<longrightarrow> collectAzureComputeUsage env s m = Inl (Panic e, m))
 \<and> (AzureLocation env = location # locations \<and> storage_usage_List env s = Inl e
       \<longrightarrow> collectAzureStorageUsage env s m = Inl (Panic e, m))
 \<and> (groups_ListComplete env s = Inr (Some items) \<and> \<not> isl (collectAzureResourceGroup env s m)
       \<longrightarrow> groups_set env s items (projr (collectAzureResourceGroup env s m)))"
proof (intro conjI impI)
  show "runMetricsCollectionAzureRm env [] m
     = Inr (m\<lparr>prometheusResourceGroup := Map.empty, prometheusPublicIp := Map.empty\<rparr>, [])"
    by (simp add: runMetricsCollectionAzureRm_def)
  show "keeps m (metrics_after (run_task env t (m, ips)))"
    by (rule run_task_keeps)
  show "untouched [prometheusSubscription, prometheusPublicIp, prometheusApiQuota,
               prometheusQuota, prometheusQuotaCurrent, prometheusQuotaLimit]
      m (metrics_after (run_task env (ResourceGroupTask s) (m, ips)))"
    unfolding metrics_after_ResourceGroup
    by (rule collectAzureResourceGroup_rel [OF untouched_refl untouched_trans ResourceGroup_Set_untouched])
  show "untouched [prometheusSubscription, prometheusResourceGroup, prometheusPublicIp, prometheusApiQuota]
      m (metrics_after (run_task env (ComputeUsageTask s) (m, ips)))"
    unfolding metrics_after_ComputeUsage collectAzureComputeUsage_def
    by (rule computeUsage_locations_rel [OF untouched_refl untouched_trans usage_step_untouched])
  show "untouched [prometheusSubscription, prometheusResourceGroup, prometheusPublicIp, prometheusApiQuota]
      m (metrics_after (run_task env (StorageUsageTask s) (m, ips)))"
    unfolding metrics_after_StorageUsage collectAzureStorageUsage_def
    by (rule storageUsage_locations_rel [OF untouched_refl untouched_trans usage_step_untouched])
next
  assume "AzureLocation env = location # locations \<and> compute_usage_List env s location = Inl e"
  then show "collectAzureComputeUsage env s m = Inl (Panic e, m)"
    by (simp add: collectAzureComputeUsage_def)
next
  assume "AzureLocation env = location # locations \<and> storage_usage_List env s = Inl e"
  then show "collectAzureStorageUsage env s m = Inl (Panic e, m)"
    by (simp add: collectAzureStorageUsage_def)
next
  assume a: "groups_ListComplete env s = Inr (Some items) \<and> \<not> isl (collectAzureResourceGroup env s m)"
  then obtain m' where r: "collectAzureResourceGroup env s m = Inr m'"
    by (cases "collectAzureResourceGroup env s m") simp_all
  then have "resourceGroup_items env s items m = Inr m'"
    using a by (simp add: collectAzureResourceGroup_def)
  then have "groups_set env s items m'"
    using resourceGroup_items_set by blast
  then show "groups_set env s items (projr (collectAzureResourceGroup env s m))"
    by (simp add: r)
qed

lemma usage_cores_S:
  "usage_step env_ok ''S'' ''westeurope'' ''compute'' usage_cores m
     = Inr (m\<lparr>prometheusQuota := (prometheusQuota m)(cores_quota \<mapsto> 1),
               prometheusQuotaCurrent := (prometheusQuotaCurrent m)(
                  [(''subscriptionID'', ''S''), (''location'', ''westeurope''), (''scope'', ''compute''),
                   (''quota'', ''cores'')] \<mapsto> 4),
               prometheusQuotaLimit := (prometheusQuotaLimit m)(
                  [(''subscriptionID'', ''S''), (''location'', ''westeurope''), (''scope'', ''compute''),
                   (''quota'', ''cores'')] \<mapsto> 100)\<rparr>)"
  by (simp add: usage_step_def usage_cores_def cores_quota_def Let_def env_ok_def env_fail_def)

lemma compute_ok_S:
  "collectAzureComputeUsage env_ok ''S'' m
     = usage_step env_ok ''S'' ''westeurope'' ''compute'' usage_cores m"
proof -
  have "AzureLocation env_ok = [''westeurope'']"
    and "compute_usage_List env_ok ''S'' ''westeurope'' = Inr [usage_cores]"
    by (simp_all add: env_ok_def env_fail_def)
  then show ?thesis
    by (simp add: collectAzureComputeUsage_def split: sum.splits)
qed

theorem collectors_reset_counterexample:
  "prometheusQuota metrics_prior stale_quota = Some 1
 \<and> \<not> isl (collectAzureComputeUsage env_ok ''S'' metrics_prior)
 \<and> prometheusQuota (projr (collectAzureComputeUsage env_ok ''S'' metrics_prior)) cores_quota = Some 1
 \<and> prometheusQuota (projr (collectAzureComputeUsage env_ok ''S'' metrics_prior)) stale_quota = Some 1"
  unfolding compute_ok_S usage_cores_S
  by (simp add: metrics_prior_def cores_quota_def stale_quota_def)

lemma FindStringSubmatch_pip1:
  "FindStringSubmatch ''/subscriptions/s/resourceGroups/rg/pip1'' = [''/resourceGroups/rg'', ''rg'']"
  by (simp add: FindStringSubmatch_def)

lemma rgLabels_group_rg: "rgLabels env_quota_fail ''S'' group_rg = Some rg_labels"
  by (simp add: rgLabels_def rg_labels_def group_rg_def env_quota_fail_def env_ok_def env_fail_def)

lemma collectAzureResourceGroup_S:
  "collectAzureResourceGroup env_quota_fail ''S'' m
     = Inr (m\<lparr>prometheusResourceGroup := (prometheusResourceGroup m)(rg_labels \<mapsto> 1)\<rparr>)"
proof -
  have "groups_ListComplete env_quota_fail ''S'' = Inr (Some [group_rg])"
    by (simp add: env_quota_fail_def env_ok_def env_fail_def)
  then show ?thesis
    by (simp add: collectAzureResourceGroup_def rgLabels_group_rg)
qed

lemma collectAzureSubscription_S:
  "collectAzureSubscription env_quota_fail ''S'' m
     = Inr (m\<lparr>prometheusSubscription := (prometheusSubscription m)(
               [(''subscriptionID'', ''S''), (''subscriptionName'', ''sub''), (''spendingLimit'', ''Off''),
                (''quotaID'', ''q''), (''locationPlacementID'', ''l'')] \<mapsto> 1)\<rparr>)"
proof -
  have g: "subscriptions_Get env_quota_fail ''S'' = Inr subscription_S"
    by (simp add: env_quota_fail_def env_ok_def env_fail_def)
  have l: "subscriptionLabels subscription_S
         = Some [(''subscriptionID'', ''S''), (''subscriptionName'', ''sub''), (''spendingLimit'', ''Off''),
                 (''quotaID'', ''q''), (''locationPlacementID'', ''l'')]"
    by (simp add: subscriptionLabels_def subscription_S_def)
  have p: "probeProcessHeader env_quota_fail (Response subscription_S) header labels m' = Inr m'"
    for header labels m'
    by (simp add: probeProcessHeader_def subscription_S_def)
  show ?thesis
    by (simp add: collectAzureSubscription_def g l p)
qed

lemma collectAzurePublicIp_S:
  "collectAzurePublicIp env_quota_fail ''S'' m
     = Inr (m\<lparr>prometheusPublicIp := (prometheusPublicIp m)(
               [(''subscriptionID'', ''S''), (''resourceGroup'', ''rg''), (''location'', ''westeurope''),
                (''ipAddress'', ''10.0.0.1''), (''ipAllocationMethod'', ''Static''),
                (''ipAdressVersion'', ''IPv4'')] \<mapsto> 1)\<rparr>,
            [''10.0.0.1''])"
proof -
  have g: "publicIPAddresses_ListAll env_quota_fail ''S'' = Inr [Some pip1]"
    by (simp add: env_quota_fail_def env_ok_def env_fail_def)
  show ?thesis
    by (simp add: collectAzurePublicIp_def g publicIp_step_def pip1_def FindStringSubmatch_pip1)
qed

lemma collectAzureComputeUsage_S:
  "collectAzureComputeUsage env_quota_fail ''S'' m = Inl (Panic ''compute usage request failed'', m)"
  by (simp add: collectAzureComputeUsage_def env_quota_fail_def env_ok_def env_fail_def)

lemma run_quota_fail_S:
  "isl (runMetricsCollectionAzureRm env_quota_fail (spawned [''S'']) metrics_prior)
 \<and> prometheusResourceGroup (snd (projl (runMetricsCollectionAzureRm env_quota_fail (spawned [''S'']) metrics_prior))) rg_labels = Some 1
 \<and> prometheusQuota (snd (projl (runMetricsCollectionAzureRm env_quota_fail (spawned [''S'']) metrics_prior))) stale_quota = Some 1"
  by (simp add: runMetricsCollectionAzureRm_def spawned_def collectAzureSubscription_S
      collectAzureResourceGroup_S collectAzurePublicIp_S collectAzureComputeUsage_S)
     (simp add: metrics_prior_def)

theorem collectors_do_not_reset_witness:
  "AzureLocation env_quota_fail = ''westeurope'' # []
 \<and> compute_usage_List env_quota_fail ''S'' ''westeurope'' = Inl ''compute usage request failed''
 \<and> collectAzureComputeUsage env_quota_fail ''S'' metrics_prior
     = Inl (Panic ''compute usage request failed'', metrics_prior)
 \<and> storage_usage_List (env_ok\<lparr>storage_usage_List := (\<lambda>s. Inl ''storage usage request failed'')\<rparr>) ''S''
     = Inl ''storage usage request failed''
 \<and> collectAzureStorageUsage (env_ok\<lparr>storage_usage_List := (\<lambda>s. Inl ''storage usage request failed'')\<rparr>)
       ''S'' metrics_prior
     = Inl (Panic ''storage usage request failed'', metrics_prior)
 \<and> groups_ListComplete env_quota_fail ''S'' = Inr (Some [group_rg])
 \<and> \<not> isl (collectAzureResourceGroup env_quota_fail ''S'' metrics_prior)
 \<and> prometheusResourceGroup (projr (collectAzureResourceGroup env_quota_fail ''S'' metrics_prior)) rg_labels
     = Some 1
 \<and> isl (runMetricsCollectionAzureRm env_quota_fail (spawned [''S'']) metrics_prior)
 \<and> prometheusResourceGroup
      (snd (projl (runMetricsCollectionAzureRm env_quota_fail (spawned [''S'']) metrics_prior))) rg_labels
     = Some 1
 \<and> prometheusQuota
      (snd (projl (runMetricsCollectionAzureRm env_quota_fail (spawned [''S'']) metrics_prior))) stale_quota
     = Some 1"
proof -
  let ?env_s = "env_ok\<lparr>storage_usage_List := (\<lambda>s. Inl ''storage usage request failed'')\<rparr>"
  have h1: "AzureLocation env_quota_fail = ''westeurope'' # []
          \<and> compute_usage_List env_quota_fail ''S'' ''westeurope'' = Inl ''compute usage request failed''"
    by (simp add: env_quota_fail_def env_ok_def env_fail_def)
  have h2: "AzureLocation ?env_s = ''westeurope'' # []
          \<and> storage_usage_List ?env_s ''S'' = Inl ''storage usage request failed''"
    by (simp add: env_ok_def env_fail_def)
  have h3: "groups_ListComplete env_quota_fail ''S'' = Inr (Some [group_rg])"
    by (simp add: env_quota_fail_def env_ok_def env_fail_def)
  have h4: "\<not> isl (collectAzureResourceGroup env_quota_fail ''S'' metrics_prior)"
    by (simp add: collectAzureResourceGroup_S)
  from collectors_do_not_reset [of env_quota_fail metrics_prior _ _ "''S''" "''westeurope''" "[]"
      "''compute usage request failed''"] h1
  have a: "collectAzureComputeUsage env_quota_fail ''S'' metrics_prior
         = Inl (Panic ''compute usage request failed'', metrics_prior)"
    by blast
  from collectors_do_not_reset [of ?env_s metrics_prior _ _ "''S''" "''westeurope''" "[]"
      "''storage usage request failed''"] h2
  have b: "collectAzureStorageUsage ?env_s ''S'' metrics_prior
         = Inl (Panic ''storage usage request failed'', metrics_prior)"
    by blast
  from collectors_do_not_reset [of env_quota_fail metrics_prior _ _ "''S''" _ _ _ "[group_rg]"] h3 h4
  have "groups_set env_quota_fail ''S'' [group_rg]
          (projr (collectAzureResourceGroup env_quota_fail ''S'' metrics_prior))"
    by blast
  then have c: "prometheusResourceGroup (projr (collectAzureResourceGroup env_quota_fail ''S'' metrics_prior)) rg_labels
     = Some 1"
    by (simp add: groups_set_def rgLabels_group_rg)
  show ?thesis
    using h1 h2 h3 h4 a b c run_quota_fail_S by blast
qed


end
